theory Spec2Isabelle
  imports Main
begin

section \<open>Python values used by the generator\<close>

text \<open>
  The generator \<^verbatim>\<open>scripts/ksy.py\<close> reads a parsed schema (nested dictionaries) and
  builds C source text. Every exception the Python code can raise is a value of
  \<open>exn\<close>; a function that can raise returns \<open>exn + 'a\<close>, with \<open>Inl\<close> for the
  exception.
\<close>

datatype exn = KeyError | IndexError | ValueError | AttributeError | AssertionError

text \<open>Sequencing of fallible steps: the first exception ends the computation.\<close>

fun bind_exn :: "exn + 'a \<Rightarrow> ('a \<Rightarrow> exn + 'b) \<Rightarrow> exn + 'b" where
  "bind_exn (Inl e) f = Inl e"
| "bind_exn (Inr x) f = f x"

subsection \<open>Strings\<close>

text \<open>
  A string is a list of characters, each a code point below 256, and \<^verbatim>\<open>len\<close> is its
  length.
\<close>

text \<open>\<^verbatim>\<open>sep.join(xs)\<close>\<close>

fun py_join :: "string \<Rightarrow> string list \<Rightarrow> string" where
  "py_join sep [] = []"
| "py_join sep [x] = x"
| "py_join sep (x # y # ys) = x @ sep @ py_join sep (y # ys)"

text \<open>\<^verbatim>\<open>str(n)\<close> for a Python integer, as an f-string renders it.\<close>

fun str_nat :: "nat \<Rightarrow> string" where
  "str_nat n =
     (if n < 10 then [''0123456789'' ! n]
      else str_nat (n div 10) @ [''0123456789'' ! (n mod 10)])"

declare str_nat.simps [simp del]

definition str_int :: "int \<Rightarrow> string" where
  "str_int i = (if i < 0 then CHR ''-'' # str_nat (nat (- i)) else str_nat (nat i))"

text \<open>An f-string field holding an \<^verbatim>\<open>Optional[int]\<close>: \<^verbatim>\<open>None\<close> renders as its name.\<close>

definition fmt_opt_int :: "int option \<Rightarrow> string" where
  "fmt_opt_int v = (case v of None \<Rightarrow> ''None'' | Some i \<Rightarrow> str_int i)"

text \<open>\<^verbatim>\<open>s.split(" ")\<close>: the pieces between single space characters; never empty.\<close>

fun split_space :: "string \<Rightarrow> string list" where
  "split_space [] = [[]]"
| "split_space (c # cs) =
     (if c = CHR '' '' then [] # split_space cs
      else (case split_space cs of
              [] \<Rightarrow> [[c]]
            | p # ps \<Rightarrow> (c # p) # ps))"

text \<open>
  \<^verbatim>\<open>s.strip()\<close>: leading and trailing whitespace removed. The whitespace characters
  are the code points below 256 that \<^verbatim>\<open>str.isspace\<close> accepts: tab to carriage return,
  the four separators \<^verbatim>\<open>0x1C\<close> to \<^verbatim>\<open>0x1F\<close>, the space, next line \<^verbatim>\<open>0x85\<close> and the
  no-break space \<^verbatim>\<open>0xA0\<close>.
\<close>

definition py_isspace :: "char \<Rightarrow> bool" where
  "py_isspace c = (c \<in> set [CHR 0x09, CHR 0x0A, CHR 0x0B, CHR 0x0C, CHR 0x0D,
                             CHR 0x1C, CHR 0x1D, CHR 0x1E, CHR 0x1F, CHR 0x20,
                             CHR 0x85, CHR 0xA0])"

definition py_strip :: "string \<Rightarrow> string" where
  "py_strip s = rev (dropWhile py_isspace (rev (dropWhile py_isspace s)))"

text \<open>\<^verbatim>\<open>s.replace(' *', '')\<close>: every occurrence of a space followed by a star is removed,
  scanning from the left.\<close>

fun replace_space_star :: "string \<Rightarrow> string" where
  "replace_space_star (a # b # cs) =
     (if a = CHR '' '' \<and> b = CHR ''*'' then replace_space_star cs
      else a # replace_space_star (b # cs))"
| "replace_space_star cs = cs"

section \<open>Type mapping tables\<close>

definition KSY2C_TYPE :: "string \<Rightarrow> string option" where
  "KSY2C_TYPE = map_of
     [(''s1'', ''int8_t''), (''u1'', ''uint8_t''),
      (''s2'', ''int16_t''), (''u2'', ''uint16_t''),
      (''s4'', ''int32_t''), (''u4'', ''uint32_t''),
      (''s8'', ''int64_t''), (''u8'', ''uint64_t''),
      (''f4'', ''float''), (''f8'', ''double'')]"

definition KSY2C_FPRINT :: "string \<Rightarrow> string option" where
  "KSY2C_FPRINT = map_of
     [(''s1'', ''%i''), (''u1'', ''%u''),
      (''s2'', ''%i''), (''u2'', ''%u''),
      (''s4'', ''%i''), (''u4'', ''%u''),
      (''s8'', ''%li''), (''u8'', ''%lu''),
      (''f4'', ''%f''), (''f8'', ''%f'')]"

definition KSY_BYTESWAPPABLE :: "string list" where
  "KSY_BYTESWAPPABLE =
     [''s1'', ''u1'', ''s2'', ''u2'', ''s4'', ''u4'', ''s8'', ''u8'', ''f4'', ''f8'']"

text \<open>
  \<^verbatim>\<open>d[key]\<close> on a dictionary: the argument is the result of looking the key up
  (\<open>None\<close> when the key is absent), and a missing key raises \<^verbatim>\<open>KeyError\<close>.
\<close>

definition getitem :: "'v option \<Rightarrow> exn + 'v" where
  "getitem v = (case v of None \<Rightarrow> Inl KeyError | Some x \<Rightarrow> Inr x)"

section \<open>Struct fields\<close>

text \<open>
  One entry of a struct's \<^verbatim>\<open>seq\<close> list, as the YAML loader delivers it: a dictionary
  in which each of the keys the constructor reads is present (\<open>Some\<close>) or absent. The
  values have the types of the dataclass annotations: text for \<^verbatim>\<open>id\<close>, \<^verbatim>\<open>type\<close>,
  \<^verbatim>\<open>enum\<close> and \<^verbatim>\<open>doc\<close>, integers for \<^verbatim>\<open>size\<close> and \<^verbatim>\<open>repeat-expr\<close>. Of
  \<^verbatim>\<open>repeat\<close> only the presence is read.
\<close>

record seq_entry =
  id_key :: "string option"
  type_key :: "string option"
  size_key :: "int option"
  repeat_key :: "string option"
  repeat_expr_key :: "int option"
  enum_key :: "string option"
  doc_key :: "string option"

record KsyStructField =
  name :: string
  type :: string
  str_len :: "int option"
  arr_len :: "int option"
  enum :: "string option"
  doc :: "string option"

text \<open>\<^verbatim>\<open>KsyStructField.__init__\<close>. Attributes the constructor does not assign keep the
  class default \<^verbatim>\<open>None\<close>.\<close>

definition KsyStructField_init :: "seq_entry \<Rightarrow> exn + KsyStructField" where
  "KsyStructField_init ksy_field =
     bind_exn (getitem (id_key ksy_field)) (\<lambda>n.
       let t = (case type_key ksy_field of None \<Rightarrow> ''u1'' | Some ty \<Rightarrow> ty);
           f = \<lparr>name = n, type = t, str_len = None, arr_len = None,
                enum = enum_key ksy_field, doc = doc_key ksy_field\<rparr>
       in if type_key ksy_field = None then
            bind_exn (getitem (size_key ksy_field)) (\<lambda>k. Inr (f\<lparr>arr_len := Some k\<rparr>))
          else if t = ''str'' then
            bind_exn (getitem (size_key ksy_field)) (\<lambda>k. Inr (f\<lparr>str_len := Some k\<rparr>))
          else if repeat_key ksy_field \<noteq> None then
            bind_exn (getitem (repeat_expr_key ksy_field)) (\<lambda>k. Inr (f\<lparr>arr_len := Some k\<rparr>))
          else Inr f)"

definition cdef :: "KsyStructField \<Rightarrow> exn + string" where
  "cdef f =
     (if type f = ''str'' then Inr (''char '' @ name f @ ''['' @ fmt_opt_int (str_len f) @ '']'')
      else if arr_len f \<noteq> None then
        bind_exn (getitem (KSY2C_TYPE (type f))) (\<lambda>ct.
          Inr (ct @ '' '' @ name f @ ''['' @ fmt_opt_int (arr_len f) @ '']''))
      else bind_exn (getitem (KSY2C_TYPE (type f))) (\<lambda>ct. Inr (ct @ '' '' @ name f)))"

definition ctype :: "KsyStructField \<Rightarrow> exn + string" where
  "ctype f =
     (if type f = ''str'' then Inr ''char *''
      else if arr_len f \<noteq> None then
        bind_exn (getitem (KSY2C_TYPE (type f))) (\<lambda>ct. Inr (ct @ '' *''))
      else bind_exn (getitem (KSY2C_TYPE (type f))) (\<lambda>ct. Inr ct))"

text \<open>
  \<^verbatim>\<open>[KSY2C_FPRINT[self.type] for _ in range(self.arr_len)]\<close>: the table is read once
  per element, so an empty range reads nothing and cannot raise.
\<close>

definition arr_strs :: "string \<Rightarrow> int \<Rightarrow> exn + string list" where
  "arr_strs t k =
     (if k \<le> 0 then Inr []
      else bind_exn (getitem (KSY2C_FPRINT t)) (\<lambda>s. Inr (replicate (nat k) s)))"

definition ctype_fprint :: "KsyStructField \<Rightarrow> exn + string" where
  "ctype_fprint f =
     (if enum f \<noteq> None then Inr ''%s (%i)''
      else if type f = ''str'' then Inr ([CHR 0x27] @ ''%.'' @ fmt_opt_int (str_len f) @ ''s'' @ [CHR 0x27])
      else (case arr_len f of
              Some k \<Rightarrow> bind_exn (arr_strs (type f) k) (\<lambda>ss. Inr (''[ '' @ py_join '', '' ss @ '' ]''))
            | None \<Rightarrow> bind_exn (getitem (KSY2C_FPRINT (type f))) (\<lambda>s. Inr s)))"

definition needs_byteswap :: "KsyStructField \<Rightarrow> bool" where
  "needs_byteswap f = (type f \<in> set KSY_BYTESWAPPABLE)"

text \<open>
  \<^verbatim>\<open>int(text)\<close> in base 10: surrounding whitespace is stripped, one sign may lead, and
  what remains must be decimal digits, which single underscores may group; anything else
  raises \<^verbatim>\<open>ValueError\<close>.
\<close>

definition digit_value :: "char \<Rightarrow> nat option" where
  "digit_value = map_of (zip ''0123456789'' [0 ..< 10])"

fun digits_value :: "string \<Rightarrow> nat \<Rightarrow> nat option" where
  "digits_value [] acc = Some acc"
| "digits_value (c # cs) acc =
     (case digit_value c of None \<Rightarrow> None | Some d \<Rightarrow> digits_value cs (10 * acc + d))"

fun grouped_digits :: "string \<Rightarrow> bool" where
  "grouped_digits [] = False"
| "grouped_digits [c] = (digit_value c \<noteq> None)"
| "grouped_digits (c # d # cs) =
     (digit_value c \<noteq> None \<and>
      (if d = CHR ''_'' then grouped_digits cs else grouped_digits (d # cs)))"

definition py_int :: "string \<Rightarrow> exn + int" where
  "py_int s =
     (let t = py_strip s;
          negative = (take 1 t = ''-'');
          digits = (if take 1 t = ''-'' \<or> take 1 t = ''+'' then drop 1 t else t)
      in if grouped_digits digits then
           (case digits_value (filter (\<lambda>c. c \<noteq> CHR ''_'') digits) 0 of
              None \<Rightarrow> Inl ValueError
            | Some n \<Rightarrow> Inr (if negative then - int n else int n))
         else Inl ValueError)"

definition nbytes :: "KsyStructField \<Rightarrow> exn + int" where
  "nbytes f = py_int (drop 1 (type f))"

section \<open>Helper modules\<close>

text \<open>
  The modules \<^verbatim>\<open>cg\<close> (naming conventions, indentation, comments, the printf builder)
  and \<^verbatim>\<open>utils\<close> (integer literals) are imported by \<^verbatim>\<open>ksy.py\<close> but are not part of
  the sources at hand. Their functions are parameters of the model: a record of total
  functions on strings, and every theorem holds for every such record.
  \<^item> \<open>cindent\<close> is \<^verbatim>\<open>cg.cindent(text)\<close>, \<open>cindent_n\<close> is \<^verbatim>\<open>cg.cindent(text, n)\<close>;
  \<^item> \<open>docstring_brief\<close> is \<^verbatim>\<open>cg.docstring(brief=text)\<close>;
  \<^item> \<open>printf_build\<close> is a \<^verbatim>\<open>cg.CPrintfBuilder(printf=alias)\<close> after its \<^verbatim>\<open>add\<close> calls
    (each a format and its arguments, in order), asked to \<^verbatim>\<open>build()\<close>.
\<close>

record cg =
  cn_arg :: "string \<Rightarrow> string"
  cn_func_name :: "string \<Rightarrow> string"
  cn_struct_type :: "string \<Rightarrow> string"
  cn_enum_value :: "string \<Rightarrow> string \<Rightarrow> string"
  comment :: "string \<Rightarrow> string"
  docstring_brief :: "string \<Rightarrow> string"
  cindent :: "string \<Rightarrow> string"
  cindent_n :: "string \<Rightarrow> int \<Rightarrow> string"
  ensure_linebreak :: "string \<Rightarrow> string"
  printf_build :: "string \<Rightarrow> (string \<times> string list) list \<Rightarrow> string"

record utils =
  is_int_literal :: "string \<Rightarrow> bool"
  int_literal :: "string \<Rightarrow> int"

text \<open>\<^verbatim>\<open>cg.CFunc\<close>, a generated C function as three pieces of text.\<close>

record CFunc =
  prefix :: string
  signature :: string
  body :: string

abbreviation nl :: string where
  "nl \<equiv> [CHR 0x0A]"

section \<open>Enums\<close>

record KsyEnumValue =
  name_v :: string
  var :: string
  value_v :: int
  doc_v :: "string option"

record KsyEnum =
  name_e :: string
  values_e :: "KsyEnumValue list"

definition cn :: "cg \<Rightarrow> KsyEnumValue \<Rightarrow> string" where
  "cn g v = cn_enum_value g (name_v v) (var v)"

definition cn_str :: "cg \<Rightarrow> KsyEnumValue \<Rightarrow> string" where
  "cn_str g v = cn g v @ ''_STR''"

text \<open>
  \<^verbatim>\<open>KsyEnum.cdynamic_from_name\<close>. The body is four lines joined by newlines: the null
  guard, the test of \<^verbatim>\<open>self.values[0]\<close>, the joined \<^verbatim>\<open>else if\<close> lines (one per element
  of \<^verbatim>\<open>self.values\<close>), and the final return. \<^verbatim>\<open>self.values[0]\<close> raises
  \<^verbatim>\<open>IndexError\<close> on an empty list.
\<close>

definition first_test :: "cg \<Rightarrow> string \<Rightarrow> KsyEnumValue \<Rightarrow> string" where
  "first_test g ename v =
     ''if (strcmp('' @ cn_arg g ename @ '', '' @ cn_str g v @ '') == 0) return '' @ cn g v @ '';''"

definition else_test :: "cg \<Rightarrow> string \<Rightarrow> KsyEnumValue \<Rightarrow> string" where
  "else_test g ename v =
     cindent g (''else if (strcmp('' @ cn_arg g ename @ '', '' @ cn_str g v @ '') == 0) return ''
                @ cn g v @ '';'')"

definition from_name_lines :: "cg \<Rightarrow> KsyEnum \<Rightarrow> exn + string list" where
  "from_name_lines g e =
     (case values_e e of
        [] \<Rightarrow> Inl IndexError
      | v0 # _ \<Rightarrow>
          Inr [''if ('' @ cn_arg g (name_e e) @ '' == NULL) return -1;'',
               first_test g (name_e e) v0,
               py_join nl (map (else_test g (name_e e)) (values_e e)),
               ''return -1;''])"

definition cdynamic_from_name :: "cg \<Rightarrow> KsyEnum \<Rightarrow> exn + CFunc" where
  "cdynamic_from_name g e =
     bind_exn (from_name_lines g e) (\<lambda>lines.
       Inr \<lparr>prefix = comment g (''Returns the '' @ name_e e @ '' value from its name.''),
            signature = ''int32_t '' @ cn_func_name g (name_e e @ ''_from_name'')
                        @ ''(const char *'' @ cn_arg g (name_e e) @ '')'',
            body = py_join nl lines\<rparr>)"

section \<open>Computed fields and structs\<close>

text \<open>One value of a struct's \<^verbatim>\<open>instances\<close> dictionary.\<close>

record comp_entry =
  enum_key_c :: "string option"
  value_key :: "string option"

record KsyStructCompField =
  name_c :: string
  enum_c :: "string option"
  expr :: "string option"

definition KsyStructCompField_init :: "string \<Rightarrow> comp_entry \<Rightarrow> KsyStructCompField" where
  "KsyStructCompField_init n ksy_comp =
     \<lparr>name_c = n, enum_c = enum_key_c ksy_comp, expr = value_key ksy_comp\<rparr>"

definition ctype_fprint_c :: "KsyStructCompField \<Rightarrow> string" where
  "ctype_fprint_c f = (if enum_c f \<noteq> None then ''%s (%i)'' else ''%i'')"

text \<open>
  A struct: its name and its schema dictionary, of which the keys \<^verbatim>\<open>seq\<close> (a list)
  and \<^verbatim>\<open>instances\<close> (a dictionary, in insertion order) are read.
\<close>

record struct_dict =
  seq_key :: "seq_entry list option"
  instances_key :: "(string \<times> comp_entry) list option"

record KsyStruct =
  name_s :: string
  ksy_struct :: struct_dict

text \<open>
  \<^verbatim>\<open>iter_fields\<close> and \<^verbatim>\<open>iter_comp_fields\<close> are generators: the dictionary is indexed
  when the iteration starts, and each field is constructed just before the loop body
  runs for it. \<open>for_fields\<close> is such a loop over the entries, threading the loop's
  variables \<open>s\<close>.
\<close>

definition seq_entries :: "KsyStruct \<Rightarrow> exn + seq_entry list" where
  "seq_entries s = getitem (seq_key (ksy_struct s))"

definition instances_items :: "KsyStruct \<Rightarrow> exn + (string \<times> comp_entry) list" where
  "instances_items s = getitem (instances_key (ksy_struct s))"

fun for_fields :: "(KsyStructField \<Rightarrow> 's \<Rightarrow> exn + 's) \<Rightarrow> seq_entry list \<Rightarrow> 's \<Rightarrow> exn + 's" where
  "for_fields step [] s = Inr s"
| "for_fields step (e # es) s =
     bind_exn (KsyStructField_init e) (\<lambda>f. bind_exn (step f s) (for_fields step es))"

fun for_comp_fields ::
  "(KsyStructCompField \<Rightarrow> 's \<Rightarrow> exn + 's) \<Rightarrow> (string \<times> comp_entry) list \<Rightarrow> 's \<Rightarrow> exn + 's" where
  "for_comp_fields step [] s = Inr s"
| "for_comp_fields step ((n, c) # es) s =
     bind_exn (step (KsyStructCompField_init n c) s) (for_comp_fields step es)"

text \<open>\<^verbatim>\<open>[f.name for f in ksy_struct.iter_fields()]\<close>\<close>

definition field_names :: "KsyStruct \<Rightarrow> exn + string list" where
  "field_names s =
     bind_exn (seq_entries s) (\<lambda>es. for_fields (\<lambda>f ns. Inr (ns @ [name f])) es [])"

text \<open>
  \<^verbatim>\<open>KsyStructCompField.cexpr\<close>. \<^verbatim>\<open>self.expr.split(" ")\<close> raises \<^verbatim>\<open>AttributeError\<close>
  when the expression is \<^verbatim>\<open>None\<close>. The loop reads the struct's field names anew for
  every token.
\<close>

definition cexpr_token :: "cg \<Rightarrow> utils \<Rightarrow> string \<Rightarrow> string list \<Rightarrow> string \<Rightarrow> string" where
  "cexpr_token g u sname names tok =
     (if tok \<in> set names then cn_arg g sname @ ''->'' @ tok
      else if is_int_literal u tok then str_int (int_literal u tok)
      else tok)"

fun cexpr_loop :: "cg \<Rightarrow> utils \<Rightarrow> KsyStruct \<Rightarrow> string list \<Rightarrow> string \<Rightarrow> exn + string" where
  "cexpr_loop g u s [] acc = Inr acc"
| "cexpr_loop g u s (tok # toks) acc =
     bind_exn (field_names s) (\<lambda>names.
       cexpr_loop g u s toks (acc @ cexpr_token g u (name_s s) names tok @ '' ''))"

definition cexpr :: "cg \<Rightarrow> utils \<Rightarrow> KsyStructCompField \<Rightarrow> KsyStruct \<Rightarrow> exn + string" where
  "cexpr g u f s =
     (case expr f of
        None \<Rightarrow> Inl AttributeError
      | Some e \<Rightarrow> bind_exn (cexpr_loop g u s (split_space e) []) (\<lambda>r. Inr (py_strip r)))"

section \<open>Generators\<close>

subsection \<open>Computed-field accessor functions\<close>



subsection \<open>Byte swapping\<close>

text \<open>
  The body of the loop of \<^verbatim>\<open>build_byteswap_struct\<close> for one field: \<open>swap_stmt\<close> is the
  text appended to \<^verbatim>\<open>func_body\<close> (empty where the loop says \<^verbatim>\<open>continue\<close>).
\<close>

definition swap_stmt :: "cg \<Rightarrow> string \<Rightarrow> KsyStructField \<Rightarrow> exn + string" where
  "swap_stmt g sname field =
     (if \<not> needs_byteswap field then Inr []
      else bind_exn (nbytes field) (\<lambda>n.
        if n = 1 then Inr []
        else
          let field_access = cn_arg g sname @ ''->'' @ name field in
          if arr_len field \<noteq> None then
            Inr (py_join nl
              [cindent g (nl @ ''for (int i = 0; i < '' @ fmt_opt_int (arr_len field) @ ''; ++i) {''),
               cindent_n g (field_access @ ''[i] = bswap'' @ str_int (n * 8) @ ''('' @ field_access @ ''[i]);'') 2,
               cindent g ''}''])
          else
            Inr (nl @ field_access @ '' = bswap'' @ str_int (n * 8) @ ''('' @ field_access @ '');'')))"

definition build_byteswap_struct :: "cg \<Rightarrow> KsyStruct \<Rightarrow> exn + CFunc" where
  "build_byteswap_struct g s =
     bind_exn (seq_entries s) (\<lambda>es.
     bind_exn (for_fields
                 (\<lambda>field func_body. bind_exn (swap_stmt g (name_s s) field) (\<lambda>t. Inr (func_body @ t)))
                 es []) (\<lambda>func_body.
       Inr \<lparr>prefix = comment g (''Utility function for byte swapping '' @ name_s s @ ''.''),
            signature = ''void '' @ cn_func_name g (name_s s @ ''_swap'') @ ''(''
                        @ cn_struct_type g (name_s s) @ '' *'' @ cn_arg g (name_s s) @ '')'',
            body = func_body\<rparr>))"

subsection \<open>Debug printer\<close>

text \<open>
  A row of the print table is \<^verbatim>\<open>(pt_name, pt_value, pt_args)\<close>. The loops of
  \<^verbatim>\<open>build_print_struct\<close> thread \<^verbatim>\<open>func_body_prefix\<close> and the table.
\<close>

type_synonym print_row = "string \<times> string \<times> string list"

definition enum_lookup_decl :: "cg \<Rightarrow> string \<Rightarrow> string \<Rightarrow> string \<Rightarrow> string" where
  "enum_lookup_decl g en fname field_access =
     ''const char *'' @ (en @ ''_'' @ fname) @ '' = '' @ cn_func_name g en @ ''_name(''
     @ field_access @ '');'' @ nl"

definition enum_lookup_arg :: "string \<Rightarrow> string \<Rightarrow> string \<Rightarrow> string" where
  "enum_lookup_arg enum_unknown en fname =
     ''('' @ (en @ ''_'' @ fname) @ '' == NULL ? '' @ [CHR 0x22] @ enum_unknown @ [CHR 0x22]
     @ '' : '' @ (en @ ''_'' @ fname) @ '')''"

definition print_field_step ::
  "cg \<Rightarrow> string \<Rightarrow> string \<Rightarrow> KsyStructField \<Rightarrow> string \<times> print_row list
   \<Rightarrow> exn + string \<times> print_row list" where
  "print_field_step g sname enum_unknown field st =
     (case st of (func_body_prefix, print_table) \<Rightarrow>
        let field_access = cn_arg g sname @ ''->'' @ name field in
        bind_exn (ctype_fprint field) (\<lambda>pt_value.
          (case arr_len field of
             Some k \<Rightarrow>
               Inr (func_body_prefix,
                    print_table @ [(name field, pt_value,
                      map (\<lambda>i. field_access @ ''['' @ str_nat i @ '']'') [0 ..< nat k])])
           | None \<Rightarrow>
               (case enum field of
                  Some en \<Rightarrow>
                    Inr (func_body_prefix @ enum_lookup_decl g en (name field) field_access,
                         print_table @ [(name field, pt_value,
                           [enum_lookup_arg enum_unknown en (name field), field_access])])
                | None \<Rightarrow>
                    Inr (func_body_prefix,
                         print_table @ [(name field, pt_value, [field_access])])))))"

definition print_comp_step ::
  "cg \<Rightarrow> string \<Rightarrow> string \<Rightarrow> KsyStructCompField \<Rightarrow> string \<times> print_row list
   \<Rightarrow> exn + string \<times> print_row list" where
  "print_comp_step g sname enum_unknown field st =
     (case st of (func_body_prefix, print_table) \<Rightarrow>
        let field_access = cn_func_name g (sname @ ''_'' @ name_c field) @ ''('' @ cn_arg g sname @ '')'' in
        (case enum_c field of
           Some en \<Rightarrow>
             Inr (func_body_prefix @ enum_lookup_decl g en (name_c field) field_access,
                  print_table @ [(''*'' @ name_c field, ctype_fprint_c field,
                    [enum_lookup_arg enum_unknown en (name_c field), field_access])])
         | None \<Rightarrow>
             Inr (func_body_prefix,
                  print_table @ [(''*'' @ name_c field, ctype_fprint_c field, [field_access])])))"

text \<open>\<^verbatim>\<open>max(xs)\<close> raises \<^verbatim>\<open>ValueError\<close> on an empty list.\<close>

fun py_max :: "nat list \<Rightarrow> exn + nat" where
  "py_max [] = Inl ValueError"
| "py_max (x # xs) = Inr (foldl max x xs)"

definition ljust :: "string \<Rightarrow> nat \<Rightarrow> string" where
  "ljust s n = s @ replicate (n - length s) (CHR '' '')"

definition print_table_of :: "cg \<Rightarrow> KsyStruct \<Rightarrow> string \<Rightarrow> exn + string \<times> print_row list" where
  "print_table_of g s enum_unknown =
     bind_exn (seq_entries s) (\<lambda>es.
     bind_exn (for_fields (print_field_step g (name_s s) enum_unknown) es ([], [])) (\<lambda>st.
     bind_exn (instances_items s) (\<lambda>items.
       for_comp_fields (print_comp_step g (name_s s) enum_unknown) items st)))"

definition build_print_struct :: "cg \<Rightarrow> KsyStruct \<Rightarrow> string \<Rightarrow> string \<Rightarrow> exn + CFunc" where
  "build_print_struct g s printf_alias enum_unknown =
     bind_exn (print_table_of g s enum_unknown) (\<lambda>(func_body_prefix, print_table).
     bind_exn (py_max (map (\<lambda>(pt_name, _, _). length pt_name) print_table)) (\<lambda>max_key_len.
       Inr \<lparr>prefix = comment g (''Utility function for printing '' @ name_s s @ ''.''),
            signature = ''void '' @ cn_func_name g (name_s s @ ''_print'') @ ''(const ''
                        @ cn_struct_type g (name_s s) @ '' *'' @ cn_arg g (name_s s) @ '')'',
            body = ensure_linebreak g func_body_prefix
                   @ printf_build g printf_alias
                       (map (\<lambda>(pt_name, pt_value, pt_args).
                               (ljust pt_name max_key_len @ '' : '' @ pt_value @ [CHR 0x5C, CHR ''n''],
                                pt_args)) print_table)
                   @ '';''\<rparr>))"

subsection \<open>Struct-to-struct conversion\<close>

text \<open>
  The text \<^verbatim>\<open>convert_struct\<close> appends to \<^verbatim>\<open>body\<close> for a pair of fields that passed the
  test of the inner loop. \<^verbatim>\<open>ctype\<close> is called on the source field first; a failed
  \<^verbatim>\<open>assert\<close> raises \<^verbatim>\<open>AssertionError\<close>.
\<close>

definition copy_stmt :: "string \<Rightarrow> string \<Rightarrow> KsyStructField \<Rightarrow> KsyStructField \<Rightarrow> exn + string" where
  "copy_stmt arg_src arg_dest src_field dest_field =
     (let src_accessor = arg_src @ ''->'' @ name src_field;
          dest_accessor = arg_dest @ ''->'' @ name dest_field in
      bind_exn (ctype src_field) (\<lambda>sct.
      bind_exn (ctype dest_field) (\<lambda>dct.
        let cast = replace_space_star (if sct = dct then [] else ''('' @ dct @ '') '') in
        if arr_len src_field \<noteq> None then
          (if arr_len src_field = arr_len dest_field then
             Inr (nl @ ''for (int i = 0; i < '' @ fmt_opt_int (arr_len src_field) @ ''; ++i) { ''
                  @ dest_accessor @ ''[i] = '' @ cast @ src_accessor @ ''[i]; }'')
           else Inl AssertionError)
        else if str_len src_field \<noteq> None then
          (if str_len src_field = str_len dest_field then
             Inr (nl @ ''memcpy('' @ dest_accessor @ '', '' @ src_accessor @ '', ''
                  @ fmt_opt_int (str_len src_field) @ '');'')
           else Inl AssertionError)
        else Inr (nl @ dest_accessor @ '' = '' @ cast @ src_accessor @ '';''))))"

text \<open>
  The two nested loops. The loop variable is the list of copy statements appended to
  \<^verbatim>\<open>body\<close> so far, in order, each kept with the name of the field it copies; the
  generated body is the prefix followed by their concatenation.
\<close>

definition convert_pair ::
  "string \<Rightarrow> string \<Rightarrow> string list \<Rightarrow> KsyStructField \<Rightarrow> KsyStructField
   \<Rightarrow> (string \<times> string) list \<Rightarrow> exn + (string \<times> string) list" where
  "convert_pair arg_src arg_dest skip_field_names src_field dest_field stmts =
     (if name src_field = name dest_field \<and> name src_field \<notin> set skip_field_names then
        bind_exn (copy_stmt arg_src arg_dest src_field dest_field) (\<lambda>t.
          Inr (stmts @ [(name src_field, t)]))
      else Inr stmts)"

definition convert_stmts ::
  "cg \<Rightarrow> KsyStruct \<Rightarrow> KsyStruct \<Rightarrow> string list \<Rightarrow> exn + (string \<times> string) list" where
  "convert_stmts g struct_src struct_dest skip_field_names =
     (let arg_src = cn_arg g (name_s struct_src); arg_dest = cn_arg g (name_s struct_dest) in
      bind_exn (seq_entries struct_src) (\<lambda>src_entries.
        for_fields
          (\<lambda>src_field stmts.
             bind_exn (seq_entries struct_dest) (\<lambda>dest_entries.
               for_fields (convert_pair arg_src arg_dest skip_field_names src_field)
                 dest_entries stmts))
          src_entries []))"

definition convert_struct ::
  "cg \<Rightarrow> KsyStruct \<Rightarrow> KsyStruct \<Rightarrow> string \<Rightarrow> string list \<Rightarrow> exn + CFunc" where
  "convert_struct g struct_src struct_dest body_prefix skip_field_names =
     bind_exn (convert_stmts g struct_src struct_dest skip_field_names) (\<lambda>stmts.
       Inr \<lparr>prefix = docstring_brief g (''Convert '' @ name_s struct_src @ '' to ''
                       @ name_s struct_dest @ ''.''),
            signature = ''int32_t ''
                        @ cn_func_name g (name_s struct_src @ ''_to_'' @ name_s struct_dest)
                        @ ''(const '' @ cn_struct_type g (name_s struct_src) @ '' *''
                        @ cn_arg g (name_s struct_src) @ '', ''
                        @ cn_struct_type g (name_s struct_dest) @ '' *''
                        @ cn_arg g (name_s struct_dest) @ '')'',
            body = nl @ (body_prefix @ concat (map snd stmts)) @ nl @ ''return 1;'' @ nl\<rparr>)"

section \<open>Notions used in the statements\<close>

text \<open>
  \<^verbatim>\<open>list(struct.iter_fields())\<close>: all fields of a list of entries, constructed in
  order; the first entry that fails to construct gives the exception.
\<close>

fun construct_all :: "seq_entry list \<Rightarrow> exn + KsyStructField list" where
  "construct_all [] = Inr []"
| "construct_all (e # es) =
     bind_exn (KsyStructField_init e) (\<lambda>f. bind_exn (construct_all es) (\<lambda>fs. Inr (f # fs)))"

text \<open>A loop over values that are already constructed.\<close>

fun for_list :: "('a \<Rightarrow> 's \<Rightarrow> exn + 's) \<Rightarrow> 'a list \<Rightarrow> 's \<Rightarrow> exn + 's" where
  "for_list step [] s = Inr s"
| "for_list step (f # fs) s = bind_exn (step f s) (for_list step fs)"

text \<open>The \<^verbatim>\<open>id\<close> keys of a struct's sequence entries, in order (none when the struct
  has no \<^verbatim>\<open>seq\<close> key).\<close>

definition seq_ids :: "KsyStruct \<Rightarrow> string option list" where
  "seq_ids s = (case seq_key (ksy_struct s) of None \<Rightarrow> [] | Some es \<Rightarrow> map id_key es)"

text \<open>The fields of a struct as constructed from its sequence entries (none when the
  struct has no \<^verbatim>\<open>seq\<close> key or an entry fails to construct).\<close>

definition struct_fields :: "KsyStruct \<Rightarrow> KsyStructField list" where
  "struct_fields s =
     (case seq_key (ksy_struct s) of
        None \<Rightarrow> []
      | Some es \<Rightarrow> (case construct_all es of Inl _ \<Rightarrow> [] | Inr fs \<Rightarrow> fs))"

text \<open>The test of the inner loop of \<^verbatim>\<open>convert_struct\<close>, and the names of the copy
  statements one source field gives rise to against the destination's fields.\<close>

definition shares :: "string list \<Rightarrow> KsyStructField \<Rightarrow> KsyStructField \<Rightarrow> bool" where
  "shares skip sf d = (name sf = name d \<and> name sf \<notin> set skip)"

definition copies_of :: "string list \<Rightarrow> KsyStructField list \<Rightarrow> KsyStructField \<Rightarrow> string list" where
  "copies_of skip dfs sf = map (\<lambda>_. name sf) (filter (shares skip sf) dfs)"

text \<open>
  The wording of claim C6, for comparison with \<open>cexpr\<close>: the expression is cut into
  its whitespace-separated tokens (\<open>words_of\<close>, as \<^verbatim>\<open>str.split()\<close> without an argument
  does), each token is rewritten, and the results are joined with single spaces.
\<close>

fun words_of :: "string \<Rightarrow> string \<Rightarrow> string list" where
  "words_of cur [] = (if cur = [] then [] else [cur])"
| "words_of cur (c # cs) =
     (if py_isspace c then (if cur = [] then words_of [] cs else cur # words_of [] cs)
      else words_of (cur @ [c]) cs)"

definition cexpr_as_claimed :: "cg \<Rightarrow> utils \<Rightarrow> string \<Rightarrow> string list \<Rightarrow> string \<Rightarrow> string" where
  "cexpr_as_claimed g u sname names e =
     py_join '' '' (map (cexpr_token g u sname names) (words_of [] e))"

section \<open>Sample inputs\<close>

text \<open>
  An instance of each helper record, used only where a theorem is evaluated at a
  concrete input. It stands for no particular naming convention.
\<close>

definition cg_plain :: cg where
  "cg_plain =
     \<lparr>cn_arg = (\<lambda>n. n),
      cn_func_name = (\<lambda>n. n),
      cn_struct_type = (\<lambda>n. n @ ''_t''),
      cn_enum_value = (\<lambda>e v. e @ ''_'' @ v),
      comment = (\<lambda>t. ''// '' @ t),
      docstring_brief = (\<lambda>t. ''/// '' @ t),
      cindent = (\<lambda>t. ''  '' @ t),
      cindent_n = (\<lambda>t n. replicate (nat (2 * n)) (CHR '' '') @ t),
      ensure_linebreak = (\<lambda>t. t),
      printf_build = (\<lambda>alias rows.
         alias @ ''('' @ [CHR 0x22] @ concat (map fst rows) @ [CHR 0x22]
         @ concat (map (\<lambda>a. '', '' @ a) (concat (map snd rows))) @ '')'')\<rparr>"

definition utils_plain :: utils where
  "utils_plain =
     \<lparr>is_int_literal = (\<lambda>t. t \<noteq> [] \<and> digits_value t 0 \<noteq> None),
      int_literal = (\<lambda>t. case digits_value t 0 of None \<Rightarrow> 0 | Some n \<Rightarrow> int n)\<rparr>"

text \<open>Schema entries: every key absent, to be filled in by record update.\<close>

definition no_keys :: seq_entry where
  "no_keys = \<lparr>id_key = None, type_key = None, size_key = None, repeat_key = None,
              repeat_expr_key = None, enum_key = None, doc_key = None\<rparr>"

definition scalar_entry :: "string \<Rightarrow> string \<Rightarrow> seq_entry" where
  "scalar_entry n t = no_keys\<lparr>id_key := Some n, type_key := Some t\<rparr>"

definition array_entry :: "string \<Rightarrow> string \<Rightarrow> int \<Rightarrow> seq_entry" where
  "array_entry n t k =
     no_keys\<lparr>id_key := Some n, type_key := Some t, repeat_key := Some ''expr'',
             repeat_expr_key := Some k\<rparr>"

definition str_entry :: "string \<Rightarrow> int \<Rightarrow> seq_entry" where
  "str_entry n k = no_keys\<lparr>id_key := Some n, type_key := Some ''str'', size_key := Some k\<rparr>"

definition mk_struct ::
  "string \<Rightarrow> seq_entry list \<Rightarrow> (string \<times> comp_entry) list \<Rightarrow> KsyStruct" where
  "mk_struct n es cs = \<lparr>name_s = n, ksy_struct = \<lparr>seq_key = Some es, instances_key = Some cs\<rparr>\<rparr>"

text \<open>Two structs that share the fields \<^verbatim>\<open>crc\<close>, \<^verbatim>\<open>pixels\<close> and \<^verbatim>\<open>label\<close>.\<close>

definition hdr_a :: KsyStruct where
  "hdr_a = mk_struct ''a''
     [scalar_entry ''crc'' ''u4'', array_entry ''pixels'' ''u4'' 4, str_entry ''label'' 8,
      scalar_entry ''only_a'' ''u2''] []"

definition hdr_b :: KsyStruct where
  "hdr_b = mk_struct ''b''
     [scalar_entry ''crc'' ''u2'', array_entry ''pixels'' ''s4'' 4, str_entry ''label'' 8,
      scalar_entry ''only_b'' ''u1''] []"

text \<open>A struct with a scalar, an array, a string and an untyped field, and two of its
  fields as constructed.\<close>

definition hdr_swap :: KsyStruct where
  "hdr_swap = mk_struct ''hdr''
     [scalar_entry ''crc'' ''u4'', array_entry ''pixels'' ''u4'' 4, str_entry ''label'' 8,
      no_keys\<lparr>id_key := Some ''raw'', size_key := Some 3\<rparr>] []"

definition field_crc :: KsyStructField where
  "field_crc = \<lparr>name = ''crc'', type = ''u4'', str_len = None, arr_len = None,
                 enum = None, doc = None\<rparr>"

definition field_label :: KsyStructField where
  "field_label = \<lparr>name = ''label'', type = ''str'', str_len = Some 8, arr_len = None,
                   enum = None, doc = None\<rparr>"

text \<open>An enum with three values, and one with none (an empty mapping in the schema).\<close>

definition color_enum :: KsyEnum where
  "color_enum =
     \<lparr>name_e = ''color'',
      values_e = [\<lparr>name_v = ''color'', var = ''RED'', value_v = 0, doc_v = None\<rparr>,
                  \<lparr>name_v = ''color'', var = ''GREEN'', value_v = 1, doc_v = None\<rparr>,
                  \<lparr>name_v = ''color'', var = ''BLUE'', value_v = 2, doc_v = None\<rparr>]\<rparr>"

definition empty_enum :: KsyEnum where
  "empty_enum = \<lparr>name_e = ''nothing'', values_e = []\<rparr>"

text \<open>Structs with computed fields, with no field at all, and with a field of a
  user-defined type.\<close>

definition hdr_crc :: KsyStruct where
  "hdr_crc = mk_struct ''hdr'' [scalar_entry ''crc'' ''u4'']
     [(''n'', \<lparr>enum_key_c = None, value_key = Some ''crc  + 12''\<rparr>)]"

definition empty_struct :: KsyStruct where
  "empty_struct = mk_struct ''nothing'' [] []"

definition typed_struct :: KsyStruct where
  "typed_struct = mk_struct ''file'' [scalar_entry ''hdr'' ''n1_header''] []"

definition hdr_print :: KsyStruct where
  "hdr_print = mk_struct ''hdr''
     [scalar_entry ''crc'' ''u4'', array_entry ''pixels'' ''u4'' 4, str_entry ''label'' 8]
     [(''n'', \<lparr>enum_key_c = None, value_key = None\<rparr>)]"

text \<open>Array fields: plain, enum-tagged, and of a user-defined type.\<close>

definition field_pixels :: KsyStructField where
  "field_pixels = \<lparr>name = ''pixels'', type = ''u4'', str_len = None, arr_len = Some 4,
                    enum = None, doc = None\<rparr>"

definition codes_entry :: seq_entry where
  "codes_entry = (array_entry ''codes'' ''u4'' 4)\<lparr>enum_key := Some ''code''\<rparr>"

definition field_codes :: KsyStructField where
  "field_codes = \<lparr>name = ''codes'', type = ''u4'', str_len = None, arr_len = Some 4,
                   enum = Some ''code'', doc = None\<rparr>"

definition hdrs_entry :: seq_entry where
  "hdrs_entry = array_entry ''hdrs'' ''n1_header'' 2"

definition field_hdrs :: KsyStructField where
  "field_hdrs = \<lparr>name = ''hdrs'', type = ''n1_header'', str_len = None, arr_len = Some 2,
                  enum = None, doc = None\<rparr>"

text \<open>A scalar field of a given tag, and a struct with fields of every width.\<close>

definition plain_field :: "string \<Rightarrow> string \<Rightarrow> KsyStructField" where
  "plain_field n t = \<lparr>name = n, type = t, str_len = None, arr_len = None, enum = None, doc = None\<rparr>"

definition hdr_widths :: KsyStruct where
  "hdr_widths = mk_struct ''h''
     [scalar_entry ''a'' ''u2'', scalar_entry ''b'' ''s8'', scalar_entry ''c'' ''f8'',
      scalar_entry ''d'' ''u1'', str_entry ''e'' 8, scalar_entry ''crc'' ''u4''] []"

section \<open>Properties\<close>

subsection \<open>Sequencing and loops\<close>

lemma bind_exn_Inr: "bind_exn m f = Inr y \<longleftrightarrow> (\<exists>x. m = Inr x \<and> f x = Inr y)"
  by (cases m) auto

lemma bind_exn_Inl: "bind_exn m f = Inl e \<longleftrightarrow> m = Inl e \<or> (\<exists>x. m = Inr x \<and> f x = Inl e)"
  by (cases m) auto

lemma for_fields_Inr:
  "for_fields step es s = Inr r \<Longrightarrow> \<exists>fs. construct_all es = Inr fs \<and> for_list step fs s = Inr r"
proof (induction es arbitrary: s)
  case Nil
  then show ?case by simp
next
  case (Cons e es)
  from Cons.prems obtain f s' where f: "KsyStructField_init e = Inr f"
    and s': "step f s = Inr s'" and rest: "for_fields step es s' = Inr r"
    by (auto simp: bind_exn_Inr)
  from Cons.IH [OF rest] obtain fs where "construct_all es = Inr fs" "for_list step fs s' = Inr r"
    by blast
  with f s' show ?case by simp
qed

lemma for_fields_construct_all:
  "construct_all es = Inr fs \<Longrightarrow> for_fields step es s = for_list step fs s"
proof (induction es arbitrary: s fs)
  case Nil
  then show ?case by simp
next
  case (Cons e es)
  from Cons.prems obtain f fs' where f: "KsyStructField_init e = Inr f"
    and fs': "construct_all es = Inr fs'" and eq: "fs = f # fs'"
    by (auto simp: bind_exn_Inr)
  show ?case
    by (cases "step f s") (simp_all add: f eq Cons.IH [OF fs'])
qed

lemma KsyStructField_init_name:
  "KsyStructField_init e = Inr f \<Longrightarrow> id_key e = Some (name f)"
  by (auto simp: KsyStructField_init_def getitem_def bind_exn_Inr Let_def
      split: option.splits if_splits)

lemma construct_all_ids:
  "construct_all es = Inr fs \<Longrightarrow> map id_key es = map (\<lambda>f. Some (name f)) fs"
  by (induction es arbitrary: fs) (auto simp: bind_exn_Inr KsyStructField_init_name)

subsection \<open>Tables and field construction\<close>

lemma KSY2C_TYPE_None: "t \<notin> set KSY_BYTESWAPPABLE \<Longrightarrow> KSY2C_TYPE t = None"
  by (simp add: KSY2C_TYPE_def KSY_BYTESWAPPABLE_def)

lemma KSY2C_FPRINT_None: "t \<notin> set KSY_BYTESWAPPABLE \<Longrightarrow> KSY2C_FPRINT t = None"
  by (simp add: KSY2C_FPRINT_def KSY_BYTESWAPPABLE_def)

lemma KsyStructField_init_cases:
  "KsyStructField_init e =
     (case id_key e of
        None \<Rightarrow> Inl KeyError
      | Some n \<Rightarrow>
          (case type_key e of
             None \<Rightarrow>
               (case size_key e of
                  None \<Rightarrow> Inl KeyError
                | Some k \<Rightarrow> Inr \<lparr>name = n, type = ''u1'', str_len = None, arr_len = Some k,
                                 enum = enum_key e, doc = doc_key e\<rparr>)
           | Some t \<Rightarrow>
               if t = ''str'' then
                 (case size_key e of
                    None \<Rightarrow> Inl KeyError
                  | Some k \<Rightarrow> Inr \<lparr>name = n, type = t, str_len = Some k, arr_len = None,
                                   enum = enum_key e, doc = doc_key e\<rparr>)
               else if repeat_key e \<noteq> None then
                 (case repeat_expr_key e of
                    None \<Rightarrow> Inl KeyError
                  | Some k \<Rightarrow> Inr \<lparr>name = n, type = t, str_len = None, arr_len = Some k,
                                   enum = enum_key e, doc = doc_key e\<rparr>)
               else Inr \<lparr>name = n, type = t, str_len = None, arr_len = None,
                         enum = enum_key e, doc = doc_key e\<rparr>))"
  by (simp add: KsyStructField_init_def getitem_def Let_def split: option.splits)

subsection \<open>Byte widths and the byte-swap loop\<close>

lemma py_int_digit:
  "py_int ''1'' = Inr 1" "py_int ''2'' = Inr 2" "py_int ''4'' = Inr 4" "py_int ''8'' = Inr 8"
  by code_simp+

lemma str_int_bits: "str_int 16 = ''16''" "str_int 32 = ''32''" "str_int 64 = ''64''"
  by code_simp+

lemma nbytes_table:
  "type f = ''s1'' \<or> type f = ''u1'' \<Longrightarrow> nbytes f = Inr 1"
  "type f = ''s2'' \<or> type f = ''u2'' \<Longrightarrow> nbytes f = Inr 2"
  "type f = ''s4'' \<or> type f = ''u4'' \<or> type f = ''f4'' \<Longrightarrow> nbytes f = Inr 4"
  "type f = ''s8'' \<or> type f = ''u8'' \<or> type f = ''f8'' \<Longrightarrow> nbytes f = Inr 8"
  by (auto simp: nbytes_def py_int_digit)

lemma needs_byteswap_nbytes:
  "needs_byteswap f \<Longrightarrow> nbytes f = Inr 1 \<or> nbytes f = Inr 2 \<or> nbytes f = Inr 4 \<or> nbytes f = Inr 8"
  using nbytes_table [of f] by (auto simp: needs_byteswap_def KSY_BYTESWAPPABLE_def)

lemma swap_stmt_total: "\<exists>t. swap_stmt g sn f = Inr t"
  using needs_byteswap_nbytes [of f] by (auto simp: swap_stmt_def Let_def)

lemma byteswap_loop:
  "for_list (\<lambda>field func_body. bind_exn (swap_stmt g sn field) (\<lambda>t. Inr (func_body @ t))) fs acc
     = Inr r \<Longrightarrow>
   \<exists>ts. list_all2 (\<lambda>f t. swap_stmt g sn f = Inr t) fs ts \<and> r = acc @ concat ts"
proof (induction fs arbitrary: acc)
  case Nil
  then show ?case by simp
next
  case (Cons f fs)
  from Cons.prems obtain t where t: "swap_stmt g sn f = Inr t"
    and rest: "for_list (\<lambda>field func_body. bind_exn (swap_stmt g sn field) (\<lambda>t. Inr (func_body @ t)))
                 fs (acc @ t) = Inr r"
    by (auto simp: bind_exn_Inr)
  from Cons.IH [OF rest] obtain ts where "list_all2 (\<lambda>f t. swap_stmt g sn f = Inr t) fs ts"
    "r = (acc @ t) @ concat ts"
    by blast
  with t have "list_all2 (\<lambda>f t. swap_stmt g sn f = Inr t) (f # fs) (t # ts) \<and>
    r = acc @ concat (t # ts)"
    by simp
  then show ?case by blast
qed

subsection \<open>Rows of the print table\<close>

lemma print_comp_step_ok:
  "\<exists>p' row. print_comp_step g sn unk cf (p, tbl) = Inr (p', tbl @ [row])"
  by (auto simp: print_comp_step_def Let_def split: option.splits)

subsection \<open>Struct-to-struct conversion: one copy statement per shared field\<close>

lemma convert_inner_names:
  "for_list (convert_pair a b skip sf) dfs stmts = Inr r \<Longrightarrow>
   map fst r = map fst stmts @ map (\<lambda>_. name sf) (filter (shares skip sf) dfs)"
proof (induction dfs arbitrary: stmts)
  case Nil
  then show ?case by simp
next
  case (Cons d dfs)
  from Cons.prems obtain s' where s': "convert_pair a b skip sf d stmts = Inr s'"
    and rest: "for_list (convert_pair a b skip sf) dfs s' = Inr r"
    by (auto simp: bind_exn_Inr)
  have "map fst s' = map fst stmts @ (if shares skip sf d then [name sf] else [])"
    using s' by (auto simp: convert_pair_def shares_def bind_exn_Inr split: if_splits)
  with Cons.IH [OF rest] show ?case by simp
qed

lemma convert_outer_names:
  assumes "for_list
             (\<lambda>sf stmts. bind_exn (getitem dseq)
                (\<lambda>des. for_fields (convert_pair a b skip sf) des stmts)) sfs stmts = Inr r"
  shows "sfs = [] \<and> r = stmts \<or>
         (\<exists>des dfs. dseq = Some des \<and> construct_all des = Inr dfs \<and>
            map fst r = map fst stmts @ concat (map (copies_of skip dfs) sfs))"
  using assms
proof (induction sfs arbitrary: stmts)
  case Nil
  then show ?case by simp
next
  case (Cons sf sfs)
  from Cons.prems obtain des s' where des: "dseq = Some des"
    and inner: "for_fields (convert_pair a b skip sf) des stmts = Inr s'"
    and rest: "for_list
             (\<lambda>sf stmts. bind_exn (getitem dseq)
                (\<lambda>des. for_fields (convert_pair a b skip sf) des stmts)) sfs s' = Inr r"
    by (auto simp: bind_exn_Inr getitem_def split: option.splits)
  from for_fields_Inr [OF inner] obtain dfs where dfs: "construct_all des = Inr dfs"
    and il: "for_list (convert_pair a b skip sf) dfs stmts = Inr s'"
    by blast
  have s'n: "map fst s' = map fst stmts @ copies_of skip dfs sf"
    using convert_inner_names [OF il] by (simp add: copies_of_def)
  from Cons.IH [OF rest] have "map fst r = map fst s' @ concat (map (copies_of skip dfs) sfs)"
    using des dfs by auto
  with s'n des dfs show ?case by simp
qed

lemma count_list_copies_of:
  "count_list (copies_of skip dfs sf) n =
     (if name sf = n \<and> n \<notin> set skip then count_list (map name dfs) n else 0)"
  by (induction dfs) (auto simp: copies_of_def shares_def)

lemma count_list_append: "count_list (xs @ ys) n = count_list xs n + count_list ys n"
  by (induction xs) auto

lemma count_list_all_copies:
  "count_list (concat (map (copies_of skip dfs) sfs)) n =
     (if n \<in> set skip then 0 else count_list (map name sfs) n * count_list (map name dfs) n)"
  by (induction sfs) (auto simp: count_list_append count_list_copies_of)

lemma count_list_distinct:
  "distinct xs \<Longrightarrow> count_list xs n = (if n \<in> set xs then 1 else 0)"
  by (induction xs) auto

lemma distinct_names:
  assumes "construct_all es = Inr fs" and "distinct (map id_key es)"
  shows "distinct (map name fs)" and "\<And>n. Some n \<in> set (map id_key es) \<longleftrightarrow> n \<in> set (map name fs)"
proof -
  have eq: "map id_key es = map Some (map name fs)"
    using construct_all_ids [OF assms(1)] by simp
  with assms(2) show "distinct (map name fs)"
    by (simp add: distinct_map del: map_map)
  show "\<And>n. Some n \<in> set (map id_key es) \<longleftrightarrow> n \<in> set (map name fs)"
    unfolding eq by auto
qed

lemma copy_stmt_text:
  assumes "copy_stmt a b sf d = Inr t"
  shows "\<exists>sct dct. ctype sf = Inr sct \<and> ctype d = Inr dct \<and>
           (arr_len sf \<noteq> None \<longrightarrow> arr_len d = arr_len sf) \<and>
           (arr_len sf = None \<and> str_len sf \<noteq> None \<longrightarrow> str_len d = str_len sf) \<and>
           t = (if arr_len sf \<noteq> None then
                  nl @ ''for (int i = 0; i < '' @ fmt_opt_int (arr_len sf) @ ''; ++i) { ''
                  @ (b @ ''->'' @ name d) @ ''[i] = ''
                  @ replace_space_star (if sct = dct then [] else ''('' @ dct @ '') '')
                  @ (a @ ''->'' @ name sf) @ ''[i]; }''
                else if str_len sf \<noteq> None then
                  nl @ ''memcpy('' @ (b @ ''->'' @ name d) @ '', '' @ (a @ ''->'' @ name sf)
                  @ '', '' @ fmt_opt_int (str_len sf) @ '');''
                else
                  nl @ (b @ ''->'' @ name d) @ '' = ''
                  @ replace_space_star (if sct = dct then [] else ''('' @ dct @ '') '')
                  @ (a @ ''->'' @ name sf) @ '';'')"
proof -
  from assms obtain sct dct where c: "ctype sf = Inr sct" "ctype d = Inr dct"
    by (auto simp: copy_stmt_def Let_def bind_exn_Inr)
  with assms show ?thesis
    by (auto simp: copy_stmt_def Let_def split: if_splits)
qed

lemma convert_inner_stmts:
  "for_list (convert_pair a b skip sf) dfs stmts = Inr r \<Longrightarrow>
   \<exists>new. r = stmts @ new \<and>
     (\<forall>(m, t) \<in> set new. \<exists>d \<in> set dfs. m = name sf \<and> name d = m \<and>
        copy_stmt a b sf d = Inr t)"
proof (induction dfs arbitrary: stmts)
  case Nil
  then show ?case by simp
next
  case (Cons d dfs)
  from Cons.prems obtain s' where s': "convert_pair a b skip sf d stmts = Inr s'"
    and rest: "for_list (convert_pair a b skip sf) dfs s' = Inr r"
    by (auto simp: bind_exn_Inr)
  from s' obtain one where one: "s' = stmts @ one"
    "\<forall>(m, t) \<in> set one. m = name sf \<and> name d = m \<and> copy_stmt a b sf d = Inr t"
    by (auto simp: convert_pair_def bind_exn_Inr split: if_splits)
  from Cons.IH [OF rest] obtain new where new: "r = s' @ new"
    "\<forall>(m, t) \<in> set new. \<exists>d \<in> set dfs. m = name sf \<and> name d = m \<and>
        copy_stmt a b sf d = Inr t"
    by blast
  have "r = stmts @ (one @ new)"
    using one(1) new(1) by simp
  moreover have "\<forall>(m, t) \<in> set (one @ new). \<exists>d' \<in> set (d # dfs). m = name sf \<and> name d' = m \<and>
        copy_stmt a b sf d' = Inr t"
    using one(2) new(2) by fastforce
  ultimately show ?case by blast
qed

lemma convert_outer_stmts:
  assumes "for_list
             (\<lambda>sf stmts. bind_exn (getitem dseq)
                (\<lambda>des. for_fields (convert_pair a b skip sf) des stmts)) sfs stmts = Inr r"
  shows "\<exists>new. r = stmts @ new \<and>
     (\<forall>(m, t) \<in> set new. \<exists>sf \<in> set sfs. \<exists>des dfs. dseq = Some des \<and>
        construct_all des = Inr dfs \<and>
        (\<exists>d \<in> set dfs. m = name sf \<and> name d = m \<and> copy_stmt a b sf d = Inr t))"
  using assms
proof (induction sfs arbitrary: stmts)
  case Nil
  then show ?case by simp
next
  case (Cons sf sfs)
  from Cons.prems obtain des s' where des: "dseq = Some des"
    and inner: "for_fields (convert_pair a b skip sf) des stmts = Inr s'"
    and rest: "for_list
             (\<lambda>sf stmts. bind_exn (getitem dseq)
                (\<lambda>des. for_fields (convert_pair a b skip sf) des stmts)) sfs s' = Inr r"
    by (auto simp: bind_exn_Inr getitem_def split: option.splits)
  from for_fields_Inr [OF inner] obtain dfs where dfs: "construct_all des = Inr dfs"
    and il: "for_list (convert_pair a b skip sf) dfs stmts = Inr s'"
    by blast
  from convert_inner_stmts [OF il] obtain one where one: "s' = stmts @ one"
    "\<forall>(m, t) \<in> set one. \<exists>d \<in> set dfs. m = name sf \<and> name d = m \<and>
        copy_stmt a b sf d = Inr t"
    by blast
  from Cons.IH [OF rest] obtain new where new: "r = s' @ new"
    "\<forall>(m, t) \<in> set new. \<exists>sf \<in> set sfs. \<exists>des dfs. dseq = Some des \<and>
        construct_all des = Inr dfs \<and>
        (\<exists>d \<in> set dfs. m = name sf \<and> name d = m \<and> copy_stmt a b sf d = Inr t)"
    by blast
  have "r = stmts @ (one @ new)"
    using one(1) new(1) by simp
  moreover have "\<forall>(m, t) \<in> set (one @ new). \<exists>sf' \<in> set (sf # sfs). \<exists>des dfs. dseq = Some des \<and>
        construct_all des = Inr dfs \<and>
        (\<exists>d \<in> set dfs. m = name sf' \<and> name d = m \<and> copy_stmt a b sf' d = Inr t)"
  proof -
    define P where "P = (\<lambda>m t. \<exists>sf' \<in> set (sf # sfs). \<exists>des dfs. dseq = Some des \<and>
        construct_all des = Inr dfs \<and>
        (\<exists>d \<in> set dfs. m = name sf' \<and> name d = m \<and> copy_stmt a b sf' d = Inr t))"
    have "P m t" if "(m, t) \<in> set one" for m t
      unfolding P_def using that one(2) des dfs by fastforce
    moreover have "P m t" if "(m, t) \<in> set new" for m t
      unfolding P_def using that new(2) by fastforce
    ultimately have "\<forall>(m, t) \<in> set (one @ new). P m t"
      by auto
    then show ?thesis
      unfolding P_def .
  qed
  ultimately show ?case by blast
qed

text \<open>
  Claim C1, as amended. When \<^verbatim>\<open>convert_struct\<close> returns a function (no length assertion
  fails and no type lookup raises) and the field names are distinct within the source
  struct and within the destination struct, the generated body is the prefix followed by
  the copy statements, and for every name \<open>n\<close> the number of copy statements for \<open>n\<close> is
  exactly one when \<open>n\<close> names a field of both structs and is not in the skip list, and
  zero otherwise. Each copy statement is, for the source and destination fields of its
  name, one counted loop over the array length copying element by element, or one
  \<^verbatim>\<open>memcpy\<close> of the string length, or one assignment, with the cast to the destination's
  type when the two external types differ.
\<close>

theorem convert_struct_copies:
  assumes ok: "convert_struct g src dst bp skip = Inr fn"
    and dsrc: "distinct (seq_ids src)" and ddst: "distinct (seq_ids dst)"
  shows "\<exists>stmts. convert_stmts g src dst skip = Inr stmts \<and>
           body fn = nl @ (bp @ concat (map snd stmts)) @ nl @ ''return 1;'' @ nl \<and>
           count_list (map fst stmts) n =
             (if Some n \<in> set (seq_ids src) \<and> Some n \<in> set (seq_ids dst) \<and> n \<notin> set skip
              then 1 else 0) \<and>
           (\<forall>(m, t) \<in> set stmts.
              \<exists>sf \<in> set (struct_fields src). \<exists>d \<in> set (struct_fields dst). \<exists>sct dct.
                name sf = m \<and> name d = m \<and> ctype sf = Inr sct \<and> ctype d = Inr dct \<and>
                (arr_len sf \<noteq> None \<longrightarrow> arr_len d = arr_len sf) \<and>
                (arr_len sf = None \<and> str_len sf \<noteq> None \<longrightarrow> str_len d = str_len sf) \<and>
                t = (if arr_len sf \<noteq> None then
                    nl @ ''for (int i = 0; i < '' @ fmt_opt_int (arr_len sf) @ ''; ++i) { ''
                    @ (cn_arg g (name_s dst) @ ''->'' @ name d) @ ''[i] = ''
                    @ replace_space_star (if sct = dct then [] else ''('' @ dct @ '') '')
                    @ (cn_arg g (name_s src) @ ''->'' @ name sf) @ ''[i]; }''
                  else if str_len sf \<noteq> None then
                    nl @ ''memcpy('' @ (cn_arg g (name_s dst) @ ''->'' @ name d) @ '', ''
                    @ (cn_arg g (name_s src) @ ''->'' @ name sf)
                    @ '', '' @ fmt_opt_int (str_len sf) @ '');''
                  else
                    nl @ (cn_arg g (name_s dst) @ ''->'' @ name d) @ '' = ''
                    @ replace_space_star (if sct = dct then [] else ''('' @ dct @ '') '')
                    @ (cn_arg g (name_s src) @ ''->'' @ name sf) @ '';''))"
proof -
  from ok obtain stmts where st: "convert_stmts g src dst skip = Inr stmts"
    and bd: "body fn = nl @ (bp @ concat (map snd stmts)) @ nl @ ''return 1;'' @ nl"
    by (auto simp: convert_struct_def bind_exn_Inr)
  let ?a = "cn_arg g (name_s src)" and ?b = "cn_arg g (name_s dst)"
  let ?F = "\<lambda>sf stmts. bind_exn (getitem (seq_key (ksy_struct dst)))
              (\<lambda>des. for_fields (convert_pair ?a ?b skip sf) des stmts)"
  from st obtain ses where ses: "seq_key (ksy_struct src) = Some ses"
    and run: "for_fields ?F ses [] = Inr stmts"
    by (auto simp: convert_stmts_def seq_entries_def Let_def bind_exn_Inr getitem_def
        split: option.splits)
  from for_fields_Inr [OF run] obtain sfs where sfs: "construct_all ses = Inr sfs"
    and lp: "for_list ?F sfs [] = Inr stmts"
    by blast
  have src_ids: "seq_ids src = map id_key ses"
    by (simp add: seq_ids_def ses)
  have src_fs: "struct_fields src = sfs"
    by (simp add: struct_fields_def ses sfs)
  note srcn = distinct_names [OF sfs dsrc [unfolded src_ids]]
  from convert_outer_names [OF lp] consider
    (none) "sfs = []" "stmts = []"
  | (some) des dfs where "seq_key (ksy_struct dst) = Some des" "construct_all des = Inr dfs"
      "map fst stmts = concat (map (copies_of skip dfs) sfs)"
    by auto
  then have cnt: "count_list (map fst stmts) n =
             (if Some n \<in> set (seq_ids src) \<and> Some n \<in> set (seq_ids dst) \<and> n \<notin> set skip
              then 1 else 0)"
  proof cases
    case none
    with srcn(2) [of n] show ?thesis
      by (simp add: src_ids)
  next
    case some
    have dst_ids: "seq_ids dst = map id_key des"
      by (simp add: seq_ids_def some(1))
    note dstn = distinct_names [OF some(2) ddst [unfolded dst_ids]]
    show ?thesis
      unfolding some(3) count_list_all_copies src_ids dst_ids srcn(2) dstn(2)
      by (simp add: count_list_distinct [OF srcn(1)] count_list_distinct [OF dstn(1)])
  qed
  from convert_outer_stmts [OF lp] have each:
    "\<forall>(m, t) \<in> set stmts. \<exists>sf \<in> set sfs. \<exists>des dfs. seq_key (ksy_struct dst) = Some des \<and>
        construct_all des = Inr dfs \<and>
        (\<exists>d \<in> set dfs. m = name sf \<and> name d = m \<and> copy_stmt ?a ?b sf d = Inr t)"
    by simp
  have pin: "(\<forall>(m, t) \<in> set stmts.
                \<exists>sf \<in> set (struct_fields src). \<exists>d \<in> set (struct_fields dst). \<exists>sct dct.
                  name sf = m \<and> name d = m \<and> ctype sf = Inr sct \<and> ctype d = Inr dct \<and>
                  (arr_len sf \<noteq> None \<longrightarrow> arr_len d = arr_len sf) \<and>
                  (arr_len sf = None \<and> str_len sf \<noteq> None \<longrightarrow> str_len d = str_len sf) \<and>
                  t = (if arr_len sf \<noteq> None then
                      nl @ ''for (int i = 0; i < '' @ fmt_opt_int (arr_len sf) @ ''; ++i) { ''
                      @ (cn_arg g (name_s dst) @ ''->'' @ name d) @ ''[i] = ''
                      @ replace_space_star (if sct = dct then [] else ''('' @ dct @ '') '')
                      @ (cn_arg g (name_s src) @ ''->'' @ name sf) @ ''[i]; }''
                    else if str_len sf \<noteq> None then
                      nl @ ''memcpy('' @ (cn_arg g (name_s dst) @ ''->'' @ name d) @ '', ''
                      @ (cn_arg g (name_s src) @ ''->'' @ name sf)
                      @ '', '' @ fmt_opt_int (str_len sf) @ '');''
                    else
                      nl @ (cn_arg g (name_s dst) @ ''->'' @ name d) @ '' = ''
                      @ replace_space_star (if sct = dct then [] else ''('' @ dct @ '') '')
                      @ (cn_arg g (name_s src) @ ''->'' @ name sf) @ '';''))"
  proof (intro ballI, clarify)
    fix m t
    assume "(m, t) \<in> set stmts"
    with each obtain sf des dfs d where sf: "sf \<in> set sfs"
      and des: "seq_key (ksy_struct dst) = Some des" "construct_all des = Inr dfs"
      and d: "d \<in> set dfs" and nm: "m = name sf" "name d = m"
      and cp: "copy_stmt ?a ?b sf d = Inr t"
      by fastforce
    have dst_fs: "struct_fields dst = dfs"
      by (simp add: struct_fields_def des)
    from copy_stmt_text [OF cp] obtain sct dct where
      "ctype sf = Inr sct \<and> ctype d = Inr dct \<and>
       (arr_len sf \<noteq> None \<longrightarrow> arr_len d = arr_len sf) \<and>
       (arr_len sf = None \<and> str_len sf \<noteq> None \<longrightarrow> str_len d = str_len sf) \<and>
       t = (if arr_len sf \<noteq> None then
                      nl @ ''for (int i = 0; i < '' @ fmt_opt_int (arr_len sf) @ ''; ++i) { ''
                      @ (cn_arg g (name_s dst) @ ''->'' @ name d) @ ''[i] = ''
                      @ replace_space_star (if sct = dct then [] else ''('' @ dct @ '') '')
                      @ (cn_arg g (name_s src) @ ''->'' @ name sf) @ ''[i]; }''
                    else if str_len sf \<noteq> None then
                      nl @ ''memcpy('' @ (cn_arg g (name_s dst) @ ''->'' @ name d) @ '', ''
                      @ (cn_arg g (name_s src) @ ''->'' @ name sf)
                      @ '', '' @ fmt_opt_int (str_len sf) @ '');''
                    else
                      nl @ (cn_arg g (name_s dst) @ ''->'' @ name d) @ '' = ''
                      @ replace_space_star (if sct = dct then [] else ''('' @ dct @ '') '')
                      @ (cn_arg g (name_s src) @ ''->'' @ name sf) @ '';'')"
      by blast
    with sf d nm show "\<exists>sf \<in> set (struct_fields src). \<exists>d \<in> set (struct_fields dst). \<exists>sct dct.
                name sf = m \<and> name d = m \<and> ctype sf = Inr sct \<and> ctype d = Inr dct \<and>
                (arr_len sf \<noteq> None \<longrightarrow> arr_len d = arr_len sf) \<and>
                (arr_len sf = None \<and> str_len sf \<noteq> None \<longrightarrow> str_len d = str_len sf) \<and>
                t = (if arr_len sf \<noteq> None then
                      nl @ ''for (int i = 0; i < '' @ fmt_opt_int (arr_len sf) @ ''; ++i) { ''
                      @ (cn_arg g (name_s dst) @ ''->'' @ name d) @ ''[i] = ''
                      @ replace_space_star (if sct = dct then [] else ''('' @ dct @ '') '')
                      @ (cn_arg g (name_s src) @ ''->'' @ name sf) @ ''[i]; }''
                    else if str_len sf \<noteq> None then
                      nl @ ''memcpy('' @ (cn_arg g (name_s dst) @ ''->'' @ name d) @ '', ''
                      @ (cn_arg g (name_s src) @ ''->'' @ name sf)
                      @ '', '' @ fmt_opt_int (str_len sf) @ '');''
                    else
                      nl @ (cn_arg g (name_s dst) @ ''->'' @ name d) @ '' = ''
                      @ replace_space_star (if sct = dct then [] else ''('' @ dct @ '') '')
                      @ (cn_arg g (name_s src) @ ''->'' @ name sf) @ '';'')"
      unfolding src_fs dst_fs by blast
  qed
  from st bd cnt pin show ?thesis
    by blast
qed

theorem convert_struct_copies_witness:
  "convert_stmts cg_plain hdr_a hdr_b [''label'']
     = Inr [(''crc'', nl @ ''b->crc = (uint16_t) a->crc;''),
            (''pixels'', nl @ ''for (int i = 0; i < 4; ++i) { b->pixels[i] = (int32_t) a->pixels[i]; }'')] \<and>
   (\<exists>stmts. convert_stmts cg_plain hdr_a hdr_b [''label''] = Inr stmts \<and>
      count_list (map fst stmts) ''crc'' = 1 \<and> count_list (map fst stmts) ''label'' = 0 \<and>
      count_list (map fst stmts) ''only_a'' = 0)"
proof -
  have v: "convert_stmts cg_plain hdr_a hdr_b [''label'']
     = Inr [(''crc'', nl @ ''b->crc = (uint16_t) a->crc;''),
            (''pixels'', nl @ ''for (int i = 0; i < 4; ++i) { b->pixels[i] = (int32_t) a->pixels[i]; }'')]"
    by code_simp
  have "\<not> isl (convert_struct cg_plain hdr_a hdr_b ''x;'' [''label''])"
    by code_simp
  then obtain fn where ok: "convert_struct cg_plain hdr_a hdr_b ''x;'' [''label''] = Inr fn"
    by (cases "convert_struct cg_plain hdr_a hdr_b ''x;'' [''label'']") auto
  have d: "distinct (seq_ids hdr_a)" "distinct (seq_ids hdr_b)"
    by code_simp+
  have m: "Some ''crc'' \<in> set (seq_ids hdr_a)" "Some ''crc'' \<in> set (seq_ids hdr_b)"
    "Some ''only_a'' \<notin> set (seq_ids hdr_b)"
    by code_simp+
  from convert_struct_copies [OF ok d, of "''crc''"]
    convert_struct_copies [OF ok d, of "''label''"]
    convert_struct_copies [OF ok d, of "''only_a''"] m
  have "\<exists>stmts. convert_stmts cg_plain hdr_a hdr_b [''label''] = Inr stmts \<and>
      count_list (map fst stmts) ''crc'' = 1 \<and> count_list (map fst stmts) ''label'' = 0 \<and>
      count_list (map fst stmts) ''only_a'' = 0"
    by auto
  with v show ?thesis
    by blast
qed

text \<open>
  The claim as stated fails on two inputs. A field \<^verbatim>\<open>pixels\<close> that is an array of 4 in
  the source and of 8 in the destination is present in both structs and not skipped,
  but the assertion on the lengths fails and nothing is generated. A destination that
  lists the name \<^verbatim>\<open>x\<close> twice gets two copy statements for it.
\<close>

theorem convert_struct_counterexample:
  "convert_struct cg_plain (mk_struct ''a'' [array_entry ''pixels'' ''u4'' 4] [])
     (mk_struct ''b'' [array_entry ''pixels'' ''u4'' 8] []) [] [] = Inl AssertionError \<and>
   map_sum id (map fst)
     (convert_stmts cg_plain (mk_struct ''a'' [scalar_entry ''x'' ''u4''] [])
        (mk_struct ''b'' [scalar_entry ''x'' ''u4'', scalar_entry ''x'' ''u4''] []) [])
     = Inr [''x'', ''x'']"
  by code_simp

subsection \<open>Unrecognised type tags\<close>

text \<open>
  Claim C2, as amended. The constructor does not look at the type tag: for an entry
  whose tag is neither one of the ten numeric tags nor \<^verbatim>\<open>str\<close>, construction succeeds
  exactly when \<^verbatim>\<open>id\<close> is present and \<^verbatim>\<open>repeat\<close> does not come without \<^verbatim>\<open>repeat-expr\<close>.
  The failure comes with the later derivations: on every field so constructed the
  declared-type rendering \<^verbatim>\<open>cdef\<close> and the external type \<^verbatim>\<open>ctype\<close> raise
  \<^verbatim>\<open>KeyError\<close>; no default type is substituted.
\<close>

theorem unknown_tag_fails_late:
  assumes "type_key e = Some t" and "t \<notin> set KSY_BYTESWAPPABLE" and "t \<noteq> ''str''"
  shows "((\<exists>f. KsyStructField_init e = Inr f) \<longleftrightarrow>
            id_key e \<noteq> None \<and> (repeat_key e \<noteq> None \<longrightarrow> repeat_expr_key e \<noteq> None)) \<and>
         (\<forall>f. KsyStructField_init e = Inr f \<longrightarrow>
            type f = t \<and> cdef f = Inl KeyError \<and> ctype f = Inl KeyError)"
proof -
  have "cdef f = Inl KeyError \<and> ctype f = Inl KeyError" if "type f = t" for f
    using that assms(2,3) by (simp add: cdef_def ctype_def getitem_def KSY2C_TYPE_None)
  moreover have "type f = t" if "KsyStructField_init e = Inr f" for f
    using that assms(1,3) unfolding KsyStructField_init_cases
    by (auto split: option.splits if_splits)
  moreover have "(\<exists>f. KsyStructField_init e = Inr f) \<longleftrightarrow>
            id_key e \<noteq> None \<and> (repeat_key e \<noteq> None \<longrightarrow> repeat_expr_key e \<noteq> None)"
    using assms(1,3) unfolding KsyStructField_init_cases
    by (auto split: option.splits if_splits)
  ultimately show ?thesis by blast
qed

theorem unknown_tag_fails_late_witness:
  "(\<exists>f. KsyStructField_init (scalar_entry ''hdr'' ''n1_header'') = Inr f \<and>
        type f = ''n1_header'' \<and> cdef f = Inl KeyError \<and> ctype f = Inl KeyError)"
proof -
  have h: "type_key (scalar_entry ''hdr'' ''n1_header'') = Some ''n1_header''"
    "''n1_header'' \<notin> set KSY_BYTESWAPPABLE" "''n1_header'' \<noteq> ''str''"
    by code_simp+
  have k: "id_key (scalar_entry ''hdr'' ''n1_header'') \<noteq> None"
    "repeat_key (scalar_entry ''hdr'' ''n1_header'') = None"
    by code_simp+
  from unknown_tag_fails_late [OF h] k show ?thesis
    by blast
qed

text \<open>
  The claim as stated makes construction fail. A field of a user-defined type is
  constructed without complaint.
\<close>

theorem unknown_tag_counterexample:
  "KsyStructField_init (scalar_entry ''hdr'' ''n1_header'')
   = Inr \<lparr>name = ''hdr'', type = ''n1_header'', str_len = None, arr_len = None,
          enum = None, doc = None\<rparr>"
  by code_simp
subsection \<open>Field construction\<close>




subsection \<open>Array fields: print format and byte swap\<close>

lemma KSY2C_FPRINT_Some:
  "t \<in> set KSY_BYTESWAPPABLE \<Longrightarrow>
   \<exists>spec. KSY2C_FPRINT t = Some spec \<and> length (filter (\<lambda>c. c = CHR ''%'') spec) = 1"
  by (auto simp: KSY2C_FPRINT_def KSY_BYTESWAPPABLE_def)

lemma percent_py_join_replicate:
  "length (filter P (py_join sep (replicate n x)))
     = n * length (filter P x) + (n - 1) * length (filter P sep)"
proof (induction n)
  case 0
  then show ?case by simp
next
  case (Suc n)
  then show ?case by (cases n) simp_all
qed

lemma ctype_fprint_array:
  assumes "arr_len f = Some k" and "0 \<le> k" and "enum f = None"
    and "type f \<in> set KSY_BYTESWAPPABLE"
  shows "\<exists>spec. ctype_fprint (f\<lparr>arr_len := None\<rparr>) = Inr spec \<and>
           ctype_fprint f = Inr (''[ '' @ py_join '', '' (replicate (nat k) spec) @ '' ]'') \<and>
           length (filter (\<lambda>c. c = CHR ''%'')
                     (''[ '' @ py_join '', '' (replicate (nat k) spec) @ '' ]'')) = nat k"
proof -
  from KSY2C_FPRINT_Some [OF assms(4)] obtain spec where spec: "KSY2C_FPRINT (type f) = Some spec"
    and one: "length (filter (\<lambda>c. c = CHR ''%'') spec) = 1"
    by blast
  have nstr: "type f \<noteq> ''str''"
    using assms(4) by (auto simp: KSY_BYTESWAPPABLE_def)
  have 1: "ctype_fprint (f\<lparr>arr_len := None\<rparr>) = Inr spec"
    using nstr assms(3) spec by (simp add: ctype_fprint_def getitem_def)
  have "arr_strs (type f) k = Inr (replicate (nat k) spec)"
    using spec assms(2) by (cases "k = 0") (simp_all add: arr_strs_def getitem_def)
  then have 2: "ctype_fprint f = Inr (''[ '' @ py_join '', '' (replicate (nat k) spec) @ '' ]'')"
    using nstr assms(1,3) by (simp add: ctype_fprint_def)
  have 3: "length (filter (\<lambda>c. c = CHR ''%'')
                     (''[ '' @ py_join '', '' (replicate (nat k) spec) @ '' ]'')) = nat k"
    by (simp add: percent_py_join_replicate one)
  from 1 2 3 show ?thesis by blast
qed

lemma swap_stmt_array:
  assumes "needs_byteswap f" and "nbytes f = Inr w" and "1 < w" and "arr_len f = Some k"
  shows "swap_stmt g sn f =
           Inr (py_join nl
             [cindent g (nl @ ''for (int i = 0; i < '' @ str_int k @ ''; ++i) {''),
              cindent_n g ((cn_arg g sn @ ''->'' @ name f) @ ''[i] = bswap'' @ str_int (w * 8)
                           @ ''('' @ (cn_arg g sn @ ''->'' @ name f) @ ''[i]);'') 2,
              cindent g ''}''])"
  using assms by (simp add: swap_stmt_def Let_def fmt_opt_int_def)

text \<open>
  Claim C4, as amended. For every field with array length \<open>k \<ge> 0\<close> and one of the ten
  numeric tags: if the field has no enum reference, its print-format fragment is
  \<^verbatim>\<open>[ s, ..., s ]\<close> with exactly \<open>k\<close> copies of the scalar format specifier \<open>s\<close> of the
  same field (the fragment holds exactly \<open>k\<close> conversion specifiers); and if its byte
  width \<open>w\<close> exceeds 1, the byte-swap generator emits for it one counted loop over
  \<^verbatim>\<open>[0, k)\<close> whose body is the single element-wise swap \<^verbatim>\<open>x[i] = bswap<8w>(x[i]);\<close>.
  Enum-tagged array fields are left out of the statement about the print format.
\<close>

theorem array_field_repetitions:
  assumes "arr_len f = Some k" and "0 \<le> k" and "type f \<in> set KSY_BYTESWAPPABLE"
  shows "(enum f = None \<longrightarrow>
           (\<exists>spec. ctype_fprint (f\<lparr>arr_len := None\<rparr>) = Inr spec \<and>
              ctype_fprint f = Inr (''[ '' @ py_join '', '' (replicate (nat k) spec) @ '' ]'') \<and>
              length (filter (\<lambda>c. c = CHR ''%'')
                        (''[ '' @ py_join '', '' (replicate (nat k) spec) @ '' ]'')) = nat k)) \<and>
         (\<forall>w. nbytes f = Inr w \<and> 1 < w \<longrightarrow>
            swap_stmt g sn f =
              Inr (py_join nl
                [cindent g (nl @ ''for (int i = 0; i < '' @ str_int k @ ''; ++i) {''),
                 cindent_n g ((cn_arg g sn @ ''->'' @ name f) @ ''[i] = bswap'' @ str_int (w * 8)
                              @ ''('' @ (cn_arg g sn @ ''->'' @ name f) @ ''[i]);'') 2,
                 cindent g ''}'']))"
proof (intro conjI impI allI)
  assume "enum f = None"
  with assms show "\<exists>spec. ctype_fprint (f\<lparr>arr_len := None\<rparr>) = Inr spec \<and>
              ctype_fprint f = Inr (''[ '' @ py_join '', '' (replicate (nat k) spec) @ '' ]'') \<and>
              length (filter (\<lambda>c. c = CHR ''%'')
                        (''[ '' @ py_join '', '' (replicate (nat k) spec) @ '' ]'')) = nat k"
    by (intro ctype_fprint_array)
next
  fix w
  assume "nbytes f = Inr w \<and> 1 < w"
  moreover have "needs_byteswap f"
    using assms(3) by (simp add: needs_byteswap_def)
  ultimately show "swap_stmt g sn f =
              Inr (py_join nl
                [cindent g (nl @ ''for (int i = 0; i < '' @ str_int k @ ''; ++i) {''),
                 cindent_n g ((cn_arg g sn @ ''->'' @ name f) @ ''[i] = bswap'' @ str_int (w * 8)
                              @ ''('' @ (cn_arg g sn @ ''->'' @ name f) @ ''[i]);'') 2,
                 cindent g ''}''])"
    using assms(1) by (intro swap_stmt_array) simp_all
qed

theorem array_field_repetitions_witness:
  "ctype_fprint (field_pixels\<lparr>arr_len := None\<rparr>) = Inr ''%u'' \<and>
   ctype_fprint field_pixels = Inr ''[ %u, %u, %u, %u ]'' \<and>
   swap_stmt cg_plain ''hdr'' field_pixels =
     Inr (''  '' @ nl @ ''for (int i = 0; i < 4; ++i) {'' @ nl
          @ ''    hdr->pixels[i] = bswap32(hdr->pixels[i]);'' @ nl @ ''  }'')"
proof -
  have h: "arr_len field_pixels = Some 4" "(0::int) \<le> 4"
    "type field_pixels \<in> set KSY_BYTESWAPPABLE"
    by code_simp+
  have e: "enum field_pixels = None" and n: "nbytes field_pixels = Inr 4 \<and> (1::int) < 4"
    by code_simp+
  have s: "ctype_fprint (field_pixels\<lparr>arr_len := None\<rparr>) = Inr ''%u''"
    by code_simp
  have r: "''[ '' @ py_join '', '' (replicate (nat 4) ''%u'') @ '' ]'' = ''[ %u, %u, %u, %u ]''"
    by code_simp
  have v: "py_join nl
             [cindent cg_plain (nl @ ''for (int i = 0; i < '' @ str_int 4 @ ''; ++i) {''),
              cindent_n cg_plain ((cn_arg cg_plain ''hdr'' @ ''->'' @ name field_pixels)
                           @ ''[i] = bswap'' @ str_int (4 * 8)
                           @ ''('' @ (cn_arg cg_plain ''hdr'' @ ''->'' @ name field_pixels) @ ''[i]);'') 2,
              cindent cg_plain ''}'']
           = ''  '' @ nl @ ''for (int i = 0; i < 4; ++i) {'' @ nl
          @ ''    hdr->pixels[i] = bswap32(hdr->pixels[i]);'' @ nl @ ''  }''"
    by code_simp
  note t = array_field_repetitions [OF h, of cg_plain "''hdr''"]
  from t e s r have "ctype_fprint field_pixels = Inr ''[ %u, %u, %u, %u ]''"
    by auto
  moreover from t n have "swap_stmt cg_plain ''hdr'' field_pixels =
     Inr (''  '' @ nl @ ''for (int i = 0; i < 4; ++i) {'' @ nl
          @ ''    hdr->pixels[i] = bswap32(hdr->pixels[i]);'' @ nl @ ''  }'')"
    unfolding v [symmetric] by blast
  ultimately show ?thesis
    using s by blast
qed

text \<open>
  The claim as stated covers every field with an array length. An array of a
  user-defined type has no fragment: the lookup of its tag raises \<^verbatim>\<open>KeyError\<close>. An
  enum-tagged array of 4 gets the fragment of an enum scalar, \<^verbatim>\<open>%s (%i)\<close>, because
  \<^verbatim>\<open>ctype_fprint\<close> tests the enum reference before the array length, while the row that
  \<^verbatim>\<open>build_print_struct\<close> builds for it, testing the array length first, carries the 4
  element arguments.
\<close>

theorem array_field_counterexample:
  "KsyStructField_init hdrs_entry = Inr field_hdrs \<and>
   ctype_fprint field_hdrs = Inl KeyError \<and>
   KsyStructField_init codes_entry = Inr field_codes \<and>
   ctype_fprint field_codes = Inr ''%s (%i)'' \<and>
   ctype_fprint (field_codes\<lparr>enum := None\<rparr>) = Inr ''[ %u, %u, %u, %u ]'' \<and>
   print_field_step cg_plain ''hdr'' ''?'' field_codes ([], [])
     = Inr ([], [(''codes'', ''%s (%i)'',
                 [''hdr->codes[0]'', ''hdr->codes[1]'', ''hdr->codes[2]'', ''hdr->codes[3]''])])"
  by code_simp
subsection \<open>Reverse lookup: the chain of tests\<close>

text \<open>
  The lines of the body for an enum with first value \<open>v\<close>: the test of \<open>v\<close> opens the
  chain, and the \<^verbatim>\<open>else if\<close> lines are built from all of \<^verbatim>\<open>self.values\<close>, \<open>v\<close> included.
\<close>

lemma from_name_lines_Cons:
  "from_name_lines g \<lparr>name_e = n, values_e = v # vs\<rparr> =
     Inr [''if ('' @ cn_arg g n @ '' == NULL) return -1;'',
          first_test g n v,
          py_join nl (else_test g n v # map (else_test g n) vs),
          ''return -1;'']"
  by (simp add: from_name_lines_def)

text \<open>
  Claim C5 asks for exactly one equality test per declared name. For the enum
  \<^verbatim>\<open>color\<close> with the values \<^verbatim>\<open>RED\<close>, \<^verbatim>\<open>GREEN\<close>, \<^verbatim>\<open>BLUE\<close> the generated body tests
  \<^verbatim>\<open>RED\<close> twice: once in the opening \<^verbatim>\<open>if\<close> and once more as the first \<^verbatim>\<open>else if\<close>.
  The guard tests the argument against \<^verbatim>\<open>NULL\<close> only.
\<close>

theorem cdynamic_from_name_tests_first_twice:
  "map_sum id body (cdynamic_from_name cg_plain color_enum) =
     Inr (''if (color == NULL) return -1;'' @ nl
          @ ''if (strcmp(color, color_RED_STR) == 0) return color_RED;'' @ nl
          @ ''  else if (strcmp(color, color_RED_STR) == 0) return color_RED;'' @ nl
          @ ''  else if (strcmp(color, color_GREEN_STR) == 0) return color_GREEN;'' @ nl
          @ ''  else if (strcmp(color, color_BLUE_STR) == 0) return color_BLUE;'' @ nl
          @ ''return -1;'')"
  by code_simp

subsection \<open>Computed-field expressions\<close>

lemma split_space_nonempty: "split_space e \<noteq> []"
  by (induction e) (auto split: list.splits)

lemma split_space_join: "py_join '' '' (split_space e) = e"
proof (induction e)
  case Nil
  then show ?case by simp
next
  case (Cons c e)
  obtain p ps where ps: "split_space e = p # ps"
    using split_space_nonempty [of e] by (cases "split_space e") auto
  with Cons show ?case
    by (cases ps) auto
qed

lemma split_space_pieces: "p \<in> set (split_space e) \<Longrightarrow> CHR '' '' \<notin> set p"
  by (induction e arbitrary: p) (auto split: list.splits if_splits)

lemma dropWhile_all: "(\<forall>c\<in>set xs. P c) \<Longrightarrow> dropWhile P xs = []"
  by (induction xs) auto

lemma py_strip_snoc_space: "py_strip (xs @ '' '') = py_strip xs"
proof (cases "\<forall>c\<in>set xs. py_isspace c")
  case True
  moreover have "py_isspace (CHR '' '')"
    by (simp add: py_isspace_def)
  ultimately have "dropWhile py_isspace (xs @ '' '') = []" "dropWhile py_isspace xs = []"
    by (auto intro!: dropWhile_all)
  then show ?thesis by (simp only: py_strip_def)
next
  case False
  then have "dropWhile py_isspace (xs @ '' '') = dropWhile py_isspace xs @ '' ''"
    by (auto simp: dropWhile_append1)
  moreover have "py_isspace (CHR '' '')"
    by (simp add: py_isspace_def)
  ultimately show ?thesis by (simp add: py_strip_def)
qed

lemma concat_spaced:
  "ts \<noteq> [] \<Longrightarrow> concat (map (\<lambda>t. h t @ '' '') ts) = py_join '' '' (map h ts) @ '' ''"
proof (induction ts)
  case Nil
  then show ?case by simp
next
  case (Cons t ts)
  then show ?case by (cases ts) auto
qed

lemma cexpr_loop_tokens:
  "field_names s = Inr names \<Longrightarrow>
   cexpr_loop g u s toks acc
     = Inr (acc @ concat (map (\<lambda>t. cexpr_token g u (name_s s) names t @ '' '') toks))"
  by (induction toks arbitrary: acc) auto

lemma field_names_loop:
  "for_list (\<lambda>f ns. Inr (ns @ [name f])) fs acc = Inr (acc @ map name fs)"
  by (induction fs arbitrary: acc) auto

lemma field_names_constructed:
  "seq_key (ksy_struct s) = Some es \<Longrightarrow> construct_all es = Inr fs \<Longrightarrow>
   field_names s = Inr (map name fs)"
  by (simp add: field_names_def seq_entries_def getitem_def for_fields_construct_all
      field_names_loop)

text \<open>
  Claim C6, as amended. For a computed field with a stored expression, in a struct whose
  sequence fields all construct, \<^verbatim>\<open>cexpr\<close> cuts the expression at every single space
  character (the pieces, joined by single spaces, give the expression back, and no piece
  holds a space; two adjacent spaces give an empty piece, and a tab or newline does not
  separate), rewrites each piece with the precedence (a) name of a declared sequence
  field: member accessor, (b) else integer literal: its decimal value, (c) else
  unchanged, joins the rewritten pieces with single spaces, and strips leading and
  trailing whitespace from the result.
\<close>

theorem cexpr_split_rewrite_join:
  assumes "expr f = Some e" and "seq_key (ksy_struct s) = Some es"
    and "construct_all es = Inr fs"
  shows "cexpr g u f s =
           Inr (py_strip (py_join '' ''
                  (map (cexpr_token g u (name_s s) (map name fs)) (split_space e)))) \<and>
         py_join '' '' (split_space e) = e \<and>
         (\<forall>p \<in> set (split_space e). CHR '' '' \<notin> set p) \<and>
         (\<forall>tok. cexpr_token g u (name_s s) (map name fs) tok =
            (if tok \<in> set (map name fs) then cn_arg g (name_s s) @ ''->'' @ tok
             else if is_int_literal u tok then str_int (int_literal u tok)
             else tok))"
proof -
  let ?h = "cexpr_token g u (name_s s) (map name fs)"
  have names: "field_names s = Inr (map name fs)"
    using assms(2,3) by (rule field_names_constructed)
  have "cexpr g u f s = Inr (py_strip (concat (map (\<lambda>t. ?h t @ '' '') (split_space e))))"
    by (simp add: cexpr_def assms(1) cexpr_loop_tokens [OF names])
  also have "concat (map (\<lambda>t. ?h t @ '' '') (split_space e))
             = py_join '' '' (map ?h (split_space e)) @ '' ''"
    by (rule concat_spaced) (rule split_space_nonempty)
  finally have "cexpr g u f s = Inr (py_strip (py_join '' '' (map ?h (split_space e))))"
    by (simp only: py_strip_snoc_space)
  then show ?thesis
    by (auto simp: split_space_join cexpr_token_def dest: split_space_pieces)
qed

theorem cexpr_split_rewrite_join_witness:
  "cexpr cg_plain utils_plain \<lparr>name_c = ''n'', enum_c = None, expr = Some ''crc + 012 * n''\<rparr> hdr_crc
     = Inr ''hdr->crc + 12 * n'' \<and>
   cexpr cg_plain utils_plain
     \<lparr>name_c = ''n'', enum_c = None, expr = Some ([CHR 0x85] @ ''crc +'' @ [CHR 0xA0])\<rparr> hdr_crc
     = Inr ''crc +'' \<and>
   cexpr cg_plain utils_plain
     \<lparr>name_c = ''n'', enum_c = None, expr = Some (''crc +'' @ [CHR 0xA0])\<rparr> hdr_crc
     = Inr ''hdr->crc +''"
proof -
  let ?e1 = "''crc + 012 * n''"
  let ?e2 = "[CHR 0x85] @ ''crc +'' @ [CHR 0xA0]"
  let ?e3 = "''crc +'' @ [CHR 0xA0]"
  have s: "seq_key (ksy_struct hdr_crc) = Some [scalar_entry ''crc'' ''u4'']"
    "construct_all [scalar_entry ''crc'' ''u4''] = Inr [field_crc]"
    by code_simp+
  have v: "py_strip (py_join '' ''
                  (map (cexpr_token cg_plain utils_plain (name_s hdr_crc) (map name [field_crc]))
                     (split_space ?e1))) = ''hdr->crc + 12 * n''"
    "py_strip (py_join '' ''
                  (map (cexpr_token cg_plain utils_plain (name_s hdr_crc) (map name [field_crc]))
                     (split_space ?e2))) = ''crc +''"
    "py_strip (py_join '' ''
                  (map (cexpr_token cg_plain utils_plain (name_s hdr_crc) (map name [field_crc]))
                     (split_space ?e3))) = ''hdr->crc +''"
    by code_simp+
  note t = cexpr_split_rewrite_join [OF _ s, where g = cg_plain and u = utils_plain]
  have "cexpr cg_plain utils_plain \<lparr>name_c = ''n'', enum_c = None, expr = Some ?e1\<rparr> hdr_crc
     = Inr ''hdr->crc + 12 * n''"
    using t [where f = "\<lparr>name_c = ''n'', enum_c = None, expr = Some ?e1\<rparr>" and e = ?e1]
    unfolding v by simp
  moreover have "cexpr cg_plain utils_plain \<lparr>name_c = ''n'', enum_c = None, expr = Some ?e2\<rparr> hdr_crc
     = Inr ''crc +''"
    using t [where f = "\<lparr>name_c = ''n'', enum_c = None, expr = Some ?e2\<rparr>" and e = ?e2]
    unfolding v by simp
  moreover have "cexpr cg_plain utils_plain \<lparr>name_c = ''n'', enum_c = None, expr = Some ?e3\<rparr> hdr_crc
     = Inr ''hdr->crc +''"
    using t [where f = "\<lparr>name_c = ''n'', enum_c = None, expr = Some ?e3\<rparr>" and e = ?e3]
    unfolding v by simp
  ultimately show ?thesis
    by blast
qed

text \<open>
  The claim as stated tokenizes on whitespace. With a tab between \<^verbatim>\<open>crc\<close> and \<^verbatim>\<open>+\<close> the
  code sees the single piece \<^verbatim>\<open>crc<TAB>+\<close>, which is no field name, and passes it
  through; with two spaces it keeps both.
\<close>

theorem cexpr_counterexample:
  "cexpr cg_plain utils_plain
     \<lparr>name_c = ''n'', enum_c = None, expr = Some (''crc'' @ [CHR 0x09] @ ''+ 12'')\<rparr> hdr_crc
     = Inr (''crc'' @ [CHR 0x09] @ ''+ 12'') \<and>
   cexpr_as_claimed cg_plain utils_plain ''hdr'' [''crc''] (''crc'' @ [CHR 0x09] @ ''+ 12'')
     = ''hdr->crc + 12'' \<and>
   cexpr cg_plain utils_plain \<lparr>name_c = ''n'', enum_c = None, expr = Some ''crc  + 12''\<rparr> hdr_crc
     = Inr ''hdr->crc  + 12'' \<and>
   cexpr_as_claimed cg_plain utils_plain ''hdr'' [''crc''] ''crc  + 12'' = ''hdr->crc + 12''"
  by code_simp

subsection \<open>Byte swapping: which fields are swapped, and how\<close>

text \<open>
  Claim C7. In the generated byte-swap function of any struct: a string field and a
  1-byte numeric field (tag \<^verbatim>\<open>s1\<close> or \<^verbatim>\<open>u1\<close>, the latter also being the tag of an
  untyped entry) contribute no text; a scalar field of a 2-byte tag contributes exactly
  the one assignment \<^verbatim>\<open>x = bswap16(x);\<close> on its member access, one of a 4-byte tag
  \<^verbatim>\<open>x = bswap32(x);\<close>, and one of an 8-byte tag \<^verbatim>\<open>x = bswap64(x);\<close>; and the body is
  the concatenation of the fields' contributions in the order of the \<^verbatim>\<open>seq\<close> list.
\<close>

theorem build_byteswap_struct_statements:
  "(type f = ''str'' \<or> type f = ''s1'' \<or> type f = ''u1'' \<longrightarrow> swap_stmt g sn f = Inr []) \<and>
   (arr_len f = None \<and> (type f = ''s2'' \<or> type f = ''u2'') \<longrightarrow>
      swap_stmt g sn f =
        Inr (nl @ (cn_arg g sn @ ''->'' @ name f) @ '' = bswap16(''
             @ (cn_arg g sn @ ''->'' @ name f) @ '');'')) \<and>
   (arr_len f = None \<and> (type f = ''s4'' \<or> type f = ''u4'' \<or> type f = ''f4'') \<longrightarrow>
      swap_stmt g sn f =
        Inr (nl @ (cn_arg g sn @ ''->'' @ name f) @ '' = bswap32(''
             @ (cn_arg g sn @ ''->'' @ name f) @ '');'')) \<and>
   (arr_len f = None \<and> (type f = ''s8'' \<or> type f = ''u8'' \<or> type f = ''f8'') \<longrightarrow>
      swap_stmt g sn f =
        Inr (nl @ (cn_arg g sn @ ''->'' @ name f) @ '' = bswap64(''
             @ (cn_arg g sn @ ''->'' @ name f) @ '');'')) \<and>
   (build_byteswap_struct g s = Inr fn \<longrightarrow>
      (\<exists>es fs ts. seq_key (ksy_struct s) = Some es \<and> construct_all es = Inr fs \<and>
         list_all2 (\<lambda>f t. swap_stmt g (name_s s) f = Inr t) fs ts \<and> body fn = concat ts))"
proof (intro conjI impI)
  assume "type f = ''str'' \<or> type f = ''s1'' \<or> type f = ''u1''"
  then show "swap_stmt g sn f = Inr []"
    using nbytes_table(1) [of f]
    by (auto simp: swap_stmt_def needs_byteswap_def KSY_BYTESWAPPABLE_def)
next
  assume "arr_len f = None \<and> (type f = ''s2'' \<or> type f = ''u2'')"
  then show "swap_stmt g sn f =
        Inr (nl @ (cn_arg g sn @ ''->'' @ name f) @ '' = bswap16(''
             @ (cn_arg g sn @ ''->'' @ name f) @ '');'')"
    using nbytes_table(2) [of f]
    by (auto simp: swap_stmt_def needs_byteswap_def KSY_BYTESWAPPABLE_def Let_def str_int_bits)
next
  assume "arr_len f = None \<and> (type f = ''s4'' \<or> type f = ''u4'' \<or> type f = ''f4'')"
  then show "swap_stmt g sn f =
        Inr (nl @ (cn_arg g sn @ ''->'' @ name f) @ '' = bswap32(''
             @ (cn_arg g sn @ ''->'' @ name f) @ '');'')"
    using nbytes_table(3) [of f]
    by (auto simp: swap_stmt_def needs_byteswap_def KSY_BYTESWAPPABLE_def Let_def str_int_bits)
next
  assume "arr_len f = None \<and> (type f = ''s8'' \<or> type f = ''u8'' \<or> type f = ''f8'')"
  then show "swap_stmt g sn f =
        Inr (nl @ (cn_arg g sn @ ''->'' @ name f) @ '' = bswap64(''
             @ (cn_arg g sn @ ''->'' @ name f) @ '');'')"
    using nbytes_table(4) [of f]
    by (auto simp: swap_stmt_def needs_byteswap_def KSY_BYTESWAPPABLE_def Let_def str_int_bits)
next
  assume ok: "build_byteswap_struct g s = Inr fn"
  let ?F = "\<lambda>field func_body. bind_exn (swap_stmt g (name_s s) field) (\<lambda>t. Inr (func_body @ t))"
  from ok obtain es where es: "seq_key (ksy_struct s) = Some es"
    and run: "for_fields ?F es [] = Inr (body fn)"
    by (auto simp: build_byteswap_struct_def seq_entries_def getitem_def bind_exn_Inr
        split: option.splits)
  from for_fields_Inr [OF run] obtain fs where fs: "construct_all es = Inr fs"
    and lp: "for_list ?F fs [] = Inr (body fn)"
    by blast
  from byteswap_loop [OF lp] es fs
  show "\<exists>es fs ts. seq_key (ksy_struct s) = Some es \<and> construct_all es = Inr fs \<and>
         list_all2 (\<lambda>f t. swap_stmt g (name_s s) f = Inr t) fs ts \<and> body fn = concat ts"
    by auto
qed

theorem build_byteswap_struct_statements_witness:
  "swap_stmt cg_plain ''h'' field_label = Inr [] \<and>
   swap_stmt cg_plain ''h'' (plain_field ''d'' ''u1'') = Inr [] \<and>
   swap_stmt cg_plain ''h'' (plain_field ''a'' ''u2'') = Inr (nl @ ''h->a = bswap16(h->a);'') \<and>
   swap_stmt cg_plain ''h'' (plain_field ''crc'' ''u4'') = Inr (nl @ ''h->crc = bswap32(h->crc);'') \<and>
   swap_stmt cg_plain ''h'' (plain_field ''c'' ''f8'') = Inr (nl @ ''h->c = bswap64(h->c);'') \<and>
   (\<exists>fn es fs ts. build_byteswap_struct cg_plain hdr_widths = Inr fn \<and>
      seq_key (ksy_struct hdr_widths) = Some es \<and> construct_all es = Inr fs \<and>
      list_all2 (\<lambda>f t. swap_stmt cg_plain (name_s hdr_widths) f = Inr t) fs ts \<and>
      body fn = concat ts \<and>
      body fn = nl @ ''h->a = bswap16(h->a);'' @ nl @ ''h->b = bswap64(h->b);'' @ nl
                @ ''h->c = bswap64(h->c);'' @ nl @ ''h->crc = bswap32(h->crc);'')"
proof -
  note t = build_byteswap_struct_statements [where g = cg_plain and sn = "''h''"]
  have nm: "cn_arg cg_plain ''h'' = ''h''"
    by code_simp
  have 1: "swap_stmt cg_plain ''h'' field_label = Inr []"
    using t [where f = field_label] by (simp add: field_label_def)
  have 2: "swap_stmt cg_plain ''h'' (plain_field ''d'' ''u1'') = Inr []"
    using t [where f = "plain_field ''d'' ''u1''"] by (simp add: plain_field_def)
  have 3: "swap_stmt cg_plain ''h'' (plain_field ''a'' ''u2'') = Inr (nl @ ''h->a = bswap16(h->a);'')"
    using t [where f = "plain_field ''a'' ''u2''"] by (simp add: plain_field_def nm)
  have 4: "swap_stmt cg_plain ''h'' (plain_field ''crc'' ''u4'')
             = Inr (nl @ ''h->crc = bswap32(h->crc);'')"
    using t [where f = "plain_field ''crc'' ''u4''"] by (simp add: plain_field_def nm)
  have 5: "swap_stmt cg_plain ''h'' (plain_field ''c'' ''f8'') = Inr (nl @ ''h->c = bswap64(h->c);'')"
    using t [where f = "plain_field ''c'' ''f8''"] by (simp add: plain_field_def nm)
  have b: "map_sum id body (build_byteswap_struct cg_plain hdr_widths)
           = Inr (nl @ ''h->a = bswap16(h->a);'' @ nl @ ''h->b = bswap64(h->b);'' @ nl
                @ ''h->c = bswap64(h->c);'' @ nl @ ''h->crc = bswap32(h->crc);'')"
    by code_simp
  then obtain fn where fn: "build_byteswap_struct cg_plain hdr_widths = Inr fn"
    by (cases "build_byteswap_struct cg_plain hdr_widths") auto
  from build_byteswap_struct_statements [where g = cg_plain and s = hdr_widths and fn = fn] fn
  have 6: "\<exists>es fs ts. seq_key (ksy_struct hdr_widths) = Some es \<and> construct_all es = Inr fs \<and>
      list_all2 (\<lambda>f t. swap_stmt cg_plain (name_s hdr_widths) f = Inr t) fs ts \<and>
      body fn = concat ts"
    by blast
  from b fn have 7: "body fn = nl @ ''h->a = bswap16(h->a);'' @ nl @ ''h->b = bswap64(h->b);'' @ nl
                @ ''h->c = bswap64(h->c);'' @ nl @ ''h->crc = bswap32(h->crc);''"
    by simp
  from 1 2 3 4 5 6 7 fn show ?thesis
    by blast
qed
subsection \<open>Reverse lookup needs a first enum value\<close>

text \<open>
  Claim C8. \<^verbatim>\<open>cdynamic_from_name\<close> reads \<^verbatim>\<open>self.values[0]\<close> unconditionally: for every
  enum with at least one value it returns a function, and for an enum without values it
  raises \<^verbatim>\<open>IndexError\<close>.
\<close>

theorem cdynamic_from_name_first_value:
  "(values_e e \<noteq> [] \<longrightarrow> (\<exists>fn. cdynamic_from_name g e = Inr fn)) \<and>
   (values_e e = [] \<longrightarrow> cdynamic_from_name g e = Inl IndexError)"
  by (cases "values_e e") (simp_all add: cdynamic_from_name_def from_name_lines_def)

theorem cdynamic_from_name_first_value_witness:
  "(\<exists>fn. cdynamic_from_name cg_plain color_enum = Inr fn) \<and>
   cdynamic_from_name cg_plain empty_enum = Inl IndexError"
proof -
  have "values_e color_enum \<noteq> []" "values_e empty_enum = []"
    by code_simp+
  with cdynamic_from_name_first_value [of color_enum cg_plain]
    cdynamic_from_name_first_value [of empty_enum cg_plain]
  show ?thesis by blast
qed

subsection \<open>Debug printer: at least one row\<close>

lemma print_field_step_ok:
  "ctype_fprint f = Inr t \<Longrightarrow>
   \<exists>p' row. print_field_step g sn unk f (p, tbl) = Inr (p', tbl @ [row])"
  by (auto simp: print_field_step_def Let_def split: option.splits)

lemma print_field_step_fail:
  "ctype_fprint f = Inl e \<Longrightarrow> print_field_step g sn unk f (p, tbl) = Inl e"
  by (simp add: print_field_step_def Let_def)

lemma ctype_fprint_exn: "ctype_fprint f = Inl e \<Longrightarrow> e = KeyError"
  by (auto simp: ctype_fprint_def arr_strs_def getitem_def bind_exn_Inl
      split: if_splits option.splits)

lemma print_fields_loop:
  "list_all (\<lambda>f. \<not> isl (ctype_fprint f)) fs \<Longrightarrow>
   \<exists>p' rows. for_list (print_field_step g sn unk) fs (p, tbl) = Inr (p', tbl @ rows) \<and>
      length rows = length fs"
proof (induction fs arbitrary: p tbl)
  case Nil
  then show ?case by simp
next
  case (Cons f fs)
  from Cons.prems obtain t where "ctype_fprint f = Inr t"
    by (cases "ctype_fprint f") auto
  from print_field_step_ok [OF this] obtain p1 row where
    1: "print_field_step g sn unk f (p, tbl) = Inr (p1, tbl @ [row])"
    by blast
  from Cons.prems have "list_all (\<lambda>f. \<not> isl (ctype_fprint f)) fs"
    by simp
  from Cons.IH [OF this, of p1 "tbl @ [row]"] obtain p' rows where
    "for_list (print_field_step g sn unk) fs (p1, tbl @ [row]) = Inr (p', (tbl @ [row]) @ rows)"
    "length rows = length fs"
    by blast
  with 1 have "for_list (print_field_step g sn unk) (f # fs) (p, tbl) = Inr (p', tbl @ (row # rows))
    \<and> length (row # rows) = length (f # fs)"
    by simp
  then show ?case by blast
qed

lemma print_fields_loop_fail:
  "\<not> list_all (\<lambda>f. \<not> isl (ctype_fprint f)) fs \<Longrightarrow>
   for_list (print_field_step g sn unk) fs st = Inl KeyError"
proof (induction fs arbitrary: st)
  case Nil
  then show ?case by simp
next
  case (Cons f fs)
  obtain p tbl where st: "st = (p, tbl)"
    by (cases st)
  show ?case
  proof (cases "ctype_fprint f")
    case (Inl e)
    with ctype_fprint_exn [OF Inl] show ?thesis
      by (simp add: st print_field_step_fail)
  next
    case (Inr t)
    from print_field_step_ok [OF Inr] obtain p1 row where
      "print_field_step g sn unk f (p, tbl) = Inr (p1, tbl @ [row])"
      by blast
    moreover from Cons.prems Inr have "\<not> list_all (\<lambda>f. \<not> isl (ctype_fprint f)) fs"
      by simp
    ultimately show ?thesis
      by (simp add: st Cons.IH)
  qed
qed

lemma print_comps_loop:
  "\<exists>p' rows. for_comp_fields (print_comp_step g sn unk) cs (p, tbl) = Inr (p', tbl @ rows) \<and>
      length rows = length cs"
proof (induction cs arbitrary: p tbl)
  case Nil
  then show ?case by simp
next
  case (Cons c cs)
  obtain n ce where c: "c = (n, ce)"
    by (cases c)
  from print_comp_step_ok obtain p1 row where
    1: "print_comp_step g sn unk (KsyStructCompField_init n ce) (p, tbl) = Inr (p1, tbl @ [row])"
    by blast
  from Cons.IH [of p1 "tbl @ [row]"] obtain p' rows where
    "for_comp_fields (print_comp_step g sn unk) cs (p1, tbl @ [row]) = Inr (p', (tbl @ [row]) @ rows)"
    "length rows = length cs"
    by blast
  with 1 have "for_comp_fields (print_comp_step g sn unk) (c # cs) (p, tbl) = Inr (p', tbl @ (row # rows))
    \<and> length (row # rows) = length (c # cs)"
    by (simp add: c)
  then show ?case by blast
qed

lemma print_table_of_rows:
  assumes "seq_key (ksy_struct s) = Some es" and "instances_key (ksy_struct s) = Some cs"
    and "construct_all es = Inr fs" and "list_all (\<lambda>f. \<not> isl (ctype_fprint f)) fs"
  shows "\<exists>p rows. print_table_of g s unk = Inr (p, rows) \<and> length rows = length es + length cs"
proof -
  from print_fields_loop [OF assms(4), of g "name_s s" unk "[]" "[]"] obtain p1 rows1 where
    1: "for_list (print_field_step g (name_s s) unk) fs ([], []) = Inr (p1, rows1)"
    and l1: "length rows1 = length fs"
    by auto
  from print_comps_loop [of g "name_s s" unk cs p1 rows1] obtain p2 rows2 where
    2: "for_comp_fields (print_comp_step g (name_s s) unk) cs (p1, rows1) = Inr (p2, rows1 @ rows2)"
    and l2: "length rows2 = length cs"
    by blast
  have "length fs = length es"
    using construct_all_ids [OF assms(3)] by (metis length_map)
  with 1 2 l1 l2 show ?thesis
    by (simp add: print_table_of_def seq_entries_def instances_items_def getitem_def assms(1,2)
        for_fields_construct_all [OF assms(3)])
qed

text \<open>
  Claim C9, as amended. Applied to a struct whose \<^verbatim>\<open>seq\<close> and \<^verbatim>\<open>instances\<close> are both
  empty, \<^verbatim>\<open>build_print_struct\<close> raises \<^verbatim>\<open>ValueError\<close>: the maximum label width is
  taken over an empty table. Applied to a struct with both keys present, at least one
  sequence or computed field, whose sequence fields all construct and all have a
  print-format fragment, it returns a print function. When a constructed sequence field
  has no print-format fragment (its tag is not in the format table), it raises
  \<^verbatim>\<open>KeyError\<close> instead, however many fields there are.
\<close>

theorem build_print_struct_rows:
  "(seq_key (ksy_struct s) = Some [] \<and> instances_key (ksy_struct s) = Some [] \<longrightarrow>
      build_print_struct g s printf_alias unk = Inl ValueError) \<and>
   (seq_key (ksy_struct s) = Some es \<and> instances_key (ksy_struct s) = Some cs \<and>
    construct_all es = Inr fs \<and> list_all (\<lambda>f. \<not> isl (ctype_fprint f)) fs \<and>
    (es \<noteq> [] \<or> cs \<noteq> []) \<longrightarrow>
      (\<exists>fn. build_print_struct g s printf_alias unk = Inr fn)) \<and>
   (seq_key (ksy_struct s) = Some es \<and> construct_all es = Inr fs \<and>
    \<not> list_all (\<lambda>f. \<not> isl (ctype_fprint f)) fs \<longrightarrow>
      build_print_struct g s printf_alias unk = Inl KeyError)"
proof (intro conjI impI)
  assume "seq_key (ksy_struct s) = Some [] \<and> instances_key (ksy_struct s) = Some []"
  then show "build_print_struct g s printf_alias unk = Inl ValueError"
    by (simp add: build_print_struct_def print_table_of_def seq_entries_def
        instances_items_def getitem_def)
next
  assume a: "seq_key (ksy_struct s) = Some es \<and> instances_key (ksy_struct s) = Some cs \<and>
    construct_all es = Inr fs \<and> list_all (\<lambda>f. \<not> isl (ctype_fprint f)) fs \<and>
    (es \<noteq> [] \<or> cs \<noteq> [])"
  then obtain p rows where t: "print_table_of g s unk = Inr (p, rows)"
    and l: "length rows = length es + length cs"
    using print_table_of_rows [of s es cs fs g unk] by blast
  from a l have "rows \<noteq> []"
    by auto
  then obtain r rs where "rows = r # rs"
    by (cases rows) auto
  with t show "\<exists>fn. build_print_struct g s printf_alias unk = Inr fn"
    by (simp add: build_print_struct_def)
next
  assume a: "seq_key (ksy_struct s) = Some es \<and> construct_all es = Inr fs \<and>
    \<not> list_all (\<lambda>f. \<not> isl (ctype_fprint f)) fs"
  then have "for_fields (print_field_step g (name_s s) unk) es ([], []) = Inl KeyError"
    by (simp add: for_fields_construct_all [of es fs] print_fields_loop_fail)
  with a show "build_print_struct g s printf_alias unk = Inl KeyError"
    by (simp add: build_print_struct_def print_table_of_def seq_entries_def getitem_def)
qed

theorem build_print_struct_rows_witness:
  "build_print_struct cg_plain empty_struct ''printf'' ''?'' = Inl ValueError \<and>
   (\<exists>fn. build_print_struct cg_plain hdr_print ''printf'' ''?'' = Inr fn) \<and>
   build_print_struct cg_plain typed_struct ''printf'' ''?'' = Inl KeyError"
proof -
  have e: "seq_key (ksy_struct empty_struct) = Some [] \<and>
           instances_key (ksy_struct empty_struct) = Some []"
    by code_simp
  let ?es = "[scalar_entry ''crc'' ''u4'', array_entry ''pixels'' ''u4'' 4, str_entry ''label'' 8]"
  let ?cs = "[(''n'', \<lparr>enum_key_c = None, value_key = None\<rparr>)]"
  have "\<not> isl (construct_all ?es)"
    by code_simp
  then obtain fs where fs: "construct_all ?es = Inr fs"
    by (cases "construct_all ?es") auto
  have "list_all (\<lambda>f. \<not> isl (ctype_fprint f)) (projr (construct_all ?es))"
    by code_simp
  with fs have h: "seq_key (ksy_struct hdr_print) = Some ?es \<and>
      instances_key (ksy_struct hdr_print) = Some ?cs \<and>
      construct_all ?es = Inr fs \<and> list_all (\<lambda>f. \<not> isl (ctype_fprint f)) fs \<and>
      (?es \<noteq> [] \<or> ?cs \<noteq> [])"
    by (simp add: hdr_print_def mk_struct_def)
  let ?ts = "[scalar_entry ''hdr'' ''n1_header'']"
  have "\<not> isl (construct_all ?ts)"
    by code_simp
  then obtain gs where gs: "construct_all ?ts = Inr gs"
    by (cases "construct_all ?ts") auto
  have "\<not> list_all (\<lambda>f. \<not> isl (ctype_fprint f)) (projr (construct_all ?ts))"
    by code_simp
  with gs have t: "seq_key (ksy_struct typed_struct) = Some ?ts \<and> construct_all ?ts = Inr gs \<and>
      \<not> list_all (\<lambda>f. \<not> isl (ctype_fprint f)) gs"
    by (simp add: typed_struct_def mk_struct_def)
  from build_print_struct_rows [where s = empty_struct and g = cg_plain] e
    build_print_struct_rows [where s = hdr_print and g = cg_plain and es = ?es and cs = ?cs
      and fs = fs] h
    build_print_struct_rows [where s = typed_struct and g = cg_plain and es = ?ts and fs = gs] t
  show ?thesis
    by blast
qed

text \<open>
  The claim as stated promises a print function for every struct with a field. A
  struct whose only field has a user-defined type has a sequence field and gets none,
  and neither does a struct with a field but without the \<^verbatim>\<open>instances\<close> key.
\<close>

theorem build_print_struct_counterexample:
  "build_print_struct cg_plain typed_struct ''printf'' ''?'' = Inl KeyError \<and>
   build_print_struct cg_plain
     \<lparr>name_s = ''hdr'',
      ksy_struct = \<lparr>seq_key = Some [scalar_entry ''crc'' ''u4''], instances_key = None\<rparr>\<rparr>
     ''printf'' ''?'' = Inl KeyError"
  by code_simp

subsection \<open>Computed fields without a value expression\<close>








end
